theory Spec2Isabelle
  imports Main
begin

section \<open>Documents and collections\<close>

text \<open>
  The three Mongoose models that carry position logic. An ObjectId is modelled by its
  string form (the code compares ids through \<open>toString()\<close>); a position is a JavaScript
  Number used as an integer, modelled as \<open>int\<close>. Only the fields the position logic reads
  or writes are kept, and the card's \<open>dueDate\<close> (a time in milliseconds, \<open>None\<close> for null),
  whose schema validator compares it with the clock whenever a loaded card is saved; titles,
  comments and the like, whose validators do not depend on the time of the save, are left out.
\<close>

type_synonym objectId = string

record CardDoc =
  card_id :: objectId
  listId :: objectId
  boardId :: objectId
  position :: int
  archived :: bool
  dueDate :: "int option"

record ListDoc =
  list_id :: objectId
  boardId :: objectId
  position :: int
  archived :: bool
  cardLimit :: "nat option"

record BoardDoc =
  board_id :: objectId
  ownerId :: objectId
  members :: "objectId list"

record db =
  boards :: "BoardDoc list"
  lists :: "ListDoc list"
  cards :: "CardDoc list"

text \<open>Exceptions thrown by the model layer.\<close>

datatype error =
    PositionNegative
  | ValidationError
  | DocumentNotFoundError
  | DuplicateKeyError

subsection \<open>Collection primitives\<close>

text \<open>
  \<open>Model.updateMany(filter, update)\<close>, \<open>Model.countDocuments(filter)\<close>,
  \<open>Model.deleteMany(filter)\<close> and \<open>Model.findById(id)\<close> over a collection kept as a list
  of documents.
\<close>

definition updateMany :: "('a \<Rightarrow> bool) \<Rightarrow> ('a \<Rightarrow> 'a) \<Rightarrow> 'a list \<Rightarrow> 'a list" where
  "updateMany flt upd coll = map (\<lambda>d. if flt d then upd d else d) coll"

definition countDocuments :: "('a \<Rightarrow> bool) \<Rightarrow> 'a list \<Rightarrow> nat" where
  "countDocuments flt coll = length (filter flt coll)"

definition deleteMany :: "('a \<Rightarrow> bool) \<Rightarrow> 'a list \<Rightarrow> 'a list" where
  "deleteMany flt coll = filter (\<lambda>d. \<not> flt d) coll"

definition findById :: "('a \<Rightarrow> objectId) \<Rightarrow> objectId \<Rightarrow> 'a list \<Rightarrow> 'a option" where
  "findById key i coll = find (\<lambda>d. key d = i) coll"

section \<open>Card model\<close>

text \<open>The update \<open>{ $inc: { position: delta } }\<close> on a card.\<close>

definition card_inc :: "int \<Rightarrow> CardDoc \<Rightarrow> CardDoc" where
  "card_inc delta c = c\<lparr>CardDoc.position := CardDoc.position c + delta\<rparr>"

text \<open>
  The validator of the \<open>dueDate\<close> path, \<open>if (!v) return true; return v > new Date()\<close>, with
  the clock reading \<open>now\<close> of the moment it runs.
\<close>

definition dueDate_validator :: "int \<Rightarrow> int option \<Rightarrow> bool" where
  "dueDate_validator now v = (case v of None \<Rightarrow> True | Some t \<Rightarrow> t > now)"

text \<open>
  \<open>this.save()\<close> at time \<open>now\<close> on a card that was loaded from the collection, after
  \<open>listId\<close> and \<open>position\<close> were assigned. Validation runs first, on the paths of the
  loaded document: \<open>min: [0, 'Position cannot be negative']\<close> rejects a negative position and
  the \<open>dueDate\<close> validator rejects a due date that has passed. Otherwise the two modified
  paths are written to the stored document with the same \<open>_id\<close>.
\<close>

definition card_save ::
  "int \<Rightarrow> CardDoc list \<Rightarrow> CardDoc \<Rightarrow> CardDoc list \<times> (error + CardDoc)" where
  "card_save now coll doc =
     (if CardDoc.position doc < 0 then (coll, Inl ValidationError)
      else if \<not> dueDate_validator now (dueDate doc) then (coll, Inl ValidationError)
      else if \<not> list_ex (\<lambda>d. card_id d = card_id doc) coll then (coll, Inl DocumentNotFoundError)
      else (updateMany (\<lambda>d. card_id d = card_id doc)
              (\<lambda>d. d\<lparr>listId := listId doc, CardDoc.position := CardDoc.position doc\<rparr>) coll,
            Inr doc))"

text \<open>
  \<open>cardSchema.methods.moveToList(newListId, newPosition = null)\<close>, called at time \<open>now\<close>.
  \<open>this\<close> is the in-memory document; the collection is threaded through and returned, also
  when the final save throws.
  The first test returns for the card's own list with a null position, so the \<open>None\<close> case
  of the same-list branch is never reached.
\<close>

definition moveToList ::
  "int \<Rightarrow> CardDoc list \<Rightarrow> CardDoc \<Rightarrow> objectId \<Rightarrow> int option
     \<Rightarrow> CardDoc list \<times> (error + CardDoc)" where
  "moveToList now coll this newListId newPosition =
     (let oldListId = listId this; oldPosition = CardDoc.position this in
      if oldListId = newListId \<and> newPosition = None then (coll, Inr this)
      else if oldListId \<noteq> newListId then
        (let coll1 = updateMany (\<lambda>c. listId c = oldListId \<and> CardDoc.position c > oldPosition)
                       (card_inc (- 1)) coll;
             newPos = (case newPosition of
                         None \<Rightarrow> int (countDocuments (\<lambda>c. listId c = newListId) coll1)
                       | Some p \<Rightarrow> p);
             coll2 = updateMany (\<lambda>c. listId c = newListId \<and> CardDoc.position c \<ge> newPos)
                       (card_inc 1) coll1
         in card_save now coll2 (this\<lparr>listId := newListId, CardDoc.position := newPos\<rparr>))
      else
        (case newPosition of
           None \<Rightarrow> (coll, Inr this)
         | Some newPos \<Rightarrow>
             if newPos = oldPosition then (coll, Inr this)
             else if newPos > oldPosition then
               card_save now
                 (updateMany (\<lambda>c. listId c = oldListId
                                  \<and> CardDoc.position c > oldPosition \<and> CardDoc.position c \<le> newPos
                                  \<and> card_id c \<noteq> card_id this)
                    (card_inc (- 1)) coll)
                 (this\<lparr>listId := newListId, CardDoc.position := newPos\<rparr>)
             else
               card_save now
                 (updateMany (\<lambda>c. listId c = oldListId
                                  \<and> CardDoc.position c \<ge> newPos \<and> CardDoc.position c < oldPosition
                                  \<and> card_id c \<noteq> card_id this)
                    (card_inc 1) coll)
                 (this\<lparr>listId := newListId, CardDoc.position := newPos\<rparr>)))"

text \<open>
  \<open>newCard.save()\<close> on a freshly constructed card whose position was supplied by the caller
  (the pre-save hook only computes a position when none was supplied) and whose due date is
  the schema default null, which its validator accepts at any time: validation, then an
  insert, which the unique \<open>_id\<close> index rejects for an id already present.
\<close>

definition card_insert :: "CardDoc list \<Rightarrow> CardDoc \<Rightarrow> CardDoc list \<times> (error + CardDoc)" where
  "card_insert coll doc =
     (if CardDoc.position doc < 0 then (coll, Inl ValidationError)
      else if list_ex (\<lambda>d. card_id d = card_id doc) coll then (coll, Inl DuplicateKeyError)
      else (coll @ [doc], Inr doc))"

text \<open>
  \<open>card.deleteOne()\<close>: the document is removed, then the
  \<open>post('deleteOne')\<close> hook closes the gap among the non-archived cards of the list.
\<close>

definition card_deleteOne :: "CardDoc list \<Rightarrow> CardDoc \<Rightarrow> CardDoc list" where
  "card_deleteOne coll doc =
     updateMany (\<lambda>c. listId c = listId doc \<and> CardDoc.position c > CardDoc.position doc
                      \<and> CardDoc.archived c = False)
       (card_inc (- 1))
       (deleteMany (\<lambda>c. card_id c = card_id doc) coll)"

section \<open>List model\<close>

definition list_inc :: "int \<Rightarrow> ListDoc \<Rightarrow> ListDoc" where
  "list_inc delta l = l\<lparr>ListDoc.position := ListDoc.position l + delta\<rparr>"

text \<open>\<open>this.save()\<close> on a loaded list after \<open>position\<close> was assigned.\<close>

definition list_save :: "ListDoc list \<Rightarrow> ListDoc \<Rightarrow> ListDoc list \<times> (error + ListDoc)" where
  "list_save coll doc =
     (if ListDoc.position doc < 0 then (coll, Inl ValidationError)
      else if \<not> list_ex (\<lambda>d. list_id d = list_id doc) coll then (coll, Inl DocumentNotFoundError)
      else (updateMany (\<lambda>d. list_id d = list_id doc)
              (\<lambda>d. d\<lparr>ListDoc.position := ListDoc.position doc\<rparr>) coll,
            Inr doc))"

definition list_insert :: "ListDoc list \<Rightarrow> ListDoc \<Rightarrow> ListDoc list \<times> (error + ListDoc)" where
  "list_insert coll doc =
     (if ListDoc.position doc < 0 then (coll, Inl ValidationError)
      else if list_ex (\<lambda>d. list_id d = list_id doc) coll then (coll, Inl DuplicateKeyError)
      else (coll @ [doc], Inr doc))"

text \<open>\<open>listSchema.methods.moveToPosition(newPosition)\<close>.\<close>

definition moveToPosition ::
  "ListDoc list \<Rightarrow> ListDoc \<Rightarrow> int \<Rightarrow> ListDoc list \<times> (error + ListDoc)" where
  "moveToPosition coll this newPosition =
     (if newPosition < 0 then (coll, Inl PositionNegative)
      else
        (let oldPosition = ListDoc.position this in
         if oldPosition = newPosition then (coll, Inr this)
         else if newPosition > oldPosition then
           list_save
             (updateMany (\<lambda>l. ListDoc.boardId l = ListDoc.boardId this
                              \<and> ListDoc.position l > oldPosition \<and> ListDoc.position l \<le> newPosition
                              \<and> list_id l \<noteq> list_id this)
                (list_inc (- 1)) coll)
             (this\<lparr>ListDoc.position := newPosition\<rparr>)
         else
           list_save
             (updateMany (\<lambda>l. ListDoc.boardId l = ListDoc.boardId this
                              \<and> ListDoc.position l \<ge> newPosition \<and> ListDoc.position l < oldPosition
                              \<and> list_id l \<noteq> list_id this)
                (list_inc 1) coll)
             (this\<lparr>ListDoc.position := newPosition\<rparr>)))"

text \<open>
  \<open>listSchema.methods.isCardLimitExceeded()\<close>: no limit when \<open>cardLimit\<close> is null or zero
  (\<open>!this.cardLimit\<close>), otherwise the non-archived cards of the list are counted.
\<close>

definition isCardLimitExceeded :: "CardDoc list \<Rightarrow> ListDoc \<Rightarrow> bool" where
  "isCardLimitExceeded cardColl this =
     (case cardLimit this of
        None \<Rightarrow> False
      | Some lim \<Rightarrow>
          if lim = 0 then False
          else countDocuments (\<lambda>c. listId c = list_id this \<and> CardDoc.archived c = False) cardColl
                 \<ge> lim)"

text \<open>
  \<open>list.deleteOne()\<close>: the \<open>pre('deleteOne')\<close> hook deletes every card of the list, the
  list document is removed, and the \<open>post('deleteOne')\<close> hook decrements the lists of the board
  that came after it.
\<close>

definition list_deleteOne :: "db \<Rightarrow> ListDoc \<Rightarrow> db" where
  "list_deleteOne d this =
     d\<lparr>lists :=
          updateMany (\<lambda>l. ListDoc.boardId l = ListDoc.boardId this
                          \<and> ListDoc.position l > ListDoc.position this)
            (list_inc (- 1))
            (deleteMany (\<lambda>l. list_id l = list_id this) (lists d)),
       cards := deleteMany (\<lambda>c. listId c = list_id this) (cards d)\<rparr>"

section \<open>Board model\<close>

definition isOwner :: "BoardDoc \<Rightarrow> objectId \<Rightarrow> bool" where
  "isOwner this userId = (ownerId this = userId)"

definition isMember :: "BoardDoc \<Rightarrow> objectId \<Rightarrow> bool" where
  "isMember this userId = (ownerId this = userId \<or> list_ex (\<lambda>memberId. memberId = userId) (members this))"

text \<open>
  \<open>board.deleteOne()\<close>: the \<open>pre('deleteOne')\<close> hook deletes the lists and the cards that
  carry the board's id (two \<open>deleteMany\<close> queries, which do not run the per-document hooks),
  then the board document is removed.
\<close>

definition board_deleteOne :: "db \<Rightarrow> BoardDoc \<Rightarrow> db" where
  "board_deleteOne d this =
     d\<lparr>boards := deleteMany (\<lambda>b. board_id b = board_id this) (boards d),
       lists := deleteMany (\<lambda>l. ListDoc.boardId l = board_id this) (lists d),
       cards := deleteMany (\<lambda>c. CardDoc.boardId c = board_id this) (cards d)\<rparr>"

section \<open>Request handlers\<close>

text \<open>
  What a handler answers when it does not succeed: the 4xx responses it sends itself, and the
  500 of its \<open>catch\<close> block when a model call throws.
\<close>

datatype failure =
    ValidationFailed
  | CardNotFound
  | ListNotFound
  | BoardNotFound
  | TargetListNotFound
  | AccessDenied
  | OwnerOnly
  | DifferentBoard
  | CardLimitReached
  | ListHasCards nat
  | ServerError

subsection \<open>Cards\<close>

text \<open>\<open>createCard\<close>; \<open>newId\<close> is the ObjectId the driver generates for the new document.\<close>

definition createCard ::
  "db \<Rightarrow> objectId \<Rightarrow> objectId \<Rightarrow> objectId \<Rightarrow> objectId \<Rightarrow> db \<times> (failure + CardDoc)" where
  "createCard d userId newId reqListId reqBoardId =
     (case findById board_id reqBoardId (boards d) of
        None \<Rightarrow> (d, Inl AccessDenied)
      | Some board \<Rightarrow>
          if \<not> isMember board userId then (d, Inl AccessDenied)
          else
            (let cardCount = countDocuments (\<lambda>c. listId c = reqListId) (cards d);
                 newCard = \<lparr>card_id = newId, listId = reqListId, boardId = reqBoardId,
                            position = int cardCount, archived = False, dueDate = None\<rparr>
             in case card_insert (cards d) newCard of
                  (coll, Inl e) \<Rightarrow> (d\<lparr>cards := coll\<rparr>, Inl ServerError)
                | (coll, Inr c) \<Rightarrow> (d\<lparr>cards := coll\<rparr>, Inr c)))"

text \<open>The checks \<open>moveCard\<close> makes on the target list when it differs from the card's list.\<close>

definition checkTargetList :: "db \<Rightarrow> CardDoc \<Rightarrow> objectId \<Rightarrow> failure option" where
  "checkTargetList d theCard reqListId =
     (if reqListId \<noteq> listId theCard then
        (case findById list_id reqListId (lists d) of
           None \<Rightarrow> Some TargetListNotFound
         | Some targetList \<Rightarrow>
             if ListDoc.boardId targetList \<noteq> CardDoc.boardId theCard then Some DifferentBoard
             else if isCardLimitExceeded (cards d) targetList then Some CardLimitReached
             else None)
      else None)"

text \<open>\<open>moveCard\<close>, served at time \<open>now\<close>.\<close>

definition moveCard ::
  "int \<Rightarrow> db \<Rightarrow> objectId \<Rightarrow> objectId \<Rightarrow> objectId \<Rightarrow> int option
     \<Rightarrow> db \<times> (failure + CardDoc)" where
  "moveCard now d userId cardId reqListId reqPosition =
     (case findById card_id cardId (cards d) of
        None \<Rightarrow> (d, Inl CardNotFound)
      | Some theCard \<Rightarrow>
          (case findById board_id (CardDoc.boardId theCard) (boards d) of
             None \<Rightarrow> (d, Inl AccessDenied)
           | Some board \<Rightarrow>
               if \<not> isMember board userId then (d, Inl AccessDenied)
               else
                 (case checkTargetList d theCard reqListId of
                    Some f \<Rightarrow> (d, Inl f)
                  | None \<Rightarrow>
                      (case moveToList now (cards d) theCard reqListId reqPosition of
                         (coll, Inl e) \<Rightarrow> (d\<lparr>cards := coll\<rparr>, Inl ServerError)
                       | (coll, Inr c) \<Rightarrow> (d\<lparr>cards := coll\<rparr>, Inr c)))))"



subsection \<open>Lists\<close>

definition createList ::
  "db \<Rightarrow> objectId \<Rightarrow> objectId \<Rightarrow> objectId \<Rightarrow> db \<times> (failure + ListDoc)" where
  "createList d userId newId reqBoardId =
     (case findById board_id reqBoardId (boards d) of
        None \<Rightarrow> (d, Inl BoardNotFound)
      | Some board \<Rightarrow>
          if \<not> isMember board userId then (d, Inl AccessDenied)
          else
            (let listCount = countDocuments (\<lambda>l. ListDoc.boardId l = board_id board) (lists d);
                 theList = \<lparr>list_id = newId, boardId = reqBoardId, position = int listCount,
                         archived = False, cardLimit = None\<rparr>
             in case list_insert (lists d) theList of
                  (coll, Inl e) \<Rightarrow> (d\<lparr>lists := coll\<rparr>, Inl ServerError)
                | (coll, Inr l) \<Rightarrow> (d\<lparr>lists := coll\<rparr>, Inr l)))"

definition deleteList :: "db \<Rightarrow> objectId \<Rightarrow> objectId \<Rightarrow> db \<times> (failure + unit)" where
  "deleteList d userId reqListId =
     (case findById list_id reqListId (lists d) of
        None \<Rightarrow> (d, Inl ListNotFound)
      | Some theList \<Rightarrow>
          (case findById board_id (ListDoc.boardId theList) (boards d) of
             None \<Rightarrow> (d, Inl AccessDenied)
           | Some board \<Rightarrow>
               if \<not> isMember board userId then (d, Inl AccessDenied)
               else
                 (let cardCount = countDocuments
                                    (\<lambda>c. listId c = reqListId \<and> CardDoc.archived c = False) (cards d)
                  in if cardCount > 0 then (d, Inl (ListHasCards cardCount))
                     else (list_deleteOne d theList, Inr ()))))"



subsection \<open>Boards\<close>

definition deleteBoard :: "db \<Rightarrow> objectId \<Rightarrow> objectId \<Rightarrow> db \<times> (failure + unit)" where
  "deleteBoard d userId reqBoardId =
     (case findById board_id reqBoardId (boards d) of
        None \<Rightarrow> (d, Inl BoardNotFound)
      | Some board \<Rightarrow>
          if \<not> isOwner board userId then (d, Inl OwnerOnly)
          else (board_deleteOne d board, Inr ()))"

section \<open>The position invariant, in the specification's words\<close>

text \<open>
  The definitions of this section follow the specification, not the code: a dense sequence
  is a set of integers \<open>{0, ..., n-1}\<close> without duplicates; \<open>siblingCount\<close> counts the
  non-archived items of a parent; invariant I1 says that the positions of the non-archived
  items of a parent are dense.
\<close>

definition dense :: "int list \<Rightarrow> bool" where
  "dense ps = (distinct ps \<and> set ps = {0..<int (length ps)})"

definition spec_siblingCards :: "CardDoc list \<Rightarrow> objectId \<Rightarrow> CardDoc list" where
  "spec_siblingCards coll l = filter (\<lambda>c. listId c = l \<and> CardDoc.archived c = False) coll"

definition spec_siblingCount_cards :: "CardDoc list \<Rightarrow> objectId \<Rightarrow> nat" where
  "spec_siblingCount_cards coll l = length (spec_siblingCards coll l)"

definition spec_I1_cards :: "CardDoc list \<Rightarrow> objectId \<Rightarrow> bool" where
  "spec_I1_cards coll l = dense (map CardDoc.position (spec_siblingCards coll l))"

definition spec_siblingLists :: "ListDoc list \<Rightarrow> objectId \<Rightarrow> ListDoc list" where
  "spec_siblingLists coll b = filter (\<lambda>l. ListDoc.boardId l = b \<and> ListDoc.archived l = False) coll"

definition spec_siblingCount_lists :: "ListDoc list \<Rightarrow> objectId \<Rightarrow> nat" where
  "spec_siblingCount_lists coll b = length (spec_siblingLists coll b)"


text \<open>
  The order in which a parent's items are shown: the populated virtuals \<open>cards\<close> of a list
  and \<open>getWithCards\<close> of a board match \<open>archived: false\<close> and sort by position.
\<close>

definition cards_in_order :: "CardDoc list \<Rightarrow> objectId \<Rightarrow> objectId list" where
  "cards_in_order coll l =
     map card_id (sort_key CardDoc.position
                    (filter (\<lambda>c. listId c = l \<and> CardDoc.archived c = False) coll))"


section \<open>Sequences of requests\<close>









section \<open>Example data\<close>

definition mkCard :: "objectId \<Rightarrow> objectId \<Rightarrow> int \<Rightarrow> CardDoc" where
  "mkCard i l p =
     \<lparr>card_id = i, listId = l, boardId = ''B'', position = p, archived = False,
      dueDate = None\<rparr>"

definition mkList :: "objectId \<Rightarrow> objectId \<Rightarrow> int \<Rightarrow> ListDoc" where
  "mkList i b p =
     \<lparr>list_id = i, boardId = b, position = p, archived = False, cardLimit = None\<rparr>"

text \<open>Parent A with items \<open>[a0@0, a1@1, a2@2, a3@3]\<close>, as cards of a list and as lists of a board.\<close>

definition cardsA :: "CardDoc list" where
  "cardsA = [mkCard ''a0'' ''A'' 0, mkCard ''a1'' ''A'' 1, mkCard ''a2'' ''A'' 2,
             mkCard ''a3'' ''A'' 3]"

definition listsA :: "ListDoc list" where
  "listsA = [mkList ''a0'' ''A'' 0, mkList ''a1'' ''A'' 1, mkList ''a2'' ''A'' 2,
             mkList ''a3'' ''A'' 3]"

text \<open>
  A board with a list \<open>F\<close> whose card limit of one is reached and a list \<open>G\<close> without
  a limit.
\<close>

definition boardB :: BoardDoc where
  "boardB = \<lparr>board_id = ''B'', ownerId = ''u1'', members = [''u2'']\<rparr>"

definition dbFull :: db where
  "dbFull = \<lparr>boards = [boardB],
             lists = [(mkList ''F'' ''B'' 0)\<lparr>cardLimit := Some 1\<rparr>, mkList ''G'' ''B'' 1],
             cards = [mkCard ''f0'' ''F'' 0, mkCard ''g0'' ''G'' 0]\<rparr>"

text \<open>A board whose only list, and that list's only card, are archived.\<close>

definition dbArch :: db where
  "dbArch = \<lparr>boards = [boardB],
             lists = [(mkList ''X'' ''B'' 0)\<lparr>ListDoc.archived := True\<rparr>],
             cards = [(mkCard ''x0'' ''X'' 0)\<lparr>CardDoc.archived := True\<rparr>]\<rparr>"

text \<open>Three lists of a board, the middle one archived.\<close>

definition listsArch :: "ListDoc list" where
  "listsArch = [mkList ''l0'' ''B'' 0, (mkList ''x1'' ''B'' 1)\<lparr>ListDoc.archived := True\<rparr>,
                mkList ''l2'' ''B'' 2]"

text \<open>Three cards of a list, the middle one archived.\<close>

definition cardsArch :: "CardDoc list" where
  "cardsArch = [mkCard ''c0'' ''L'' 0, (mkCard ''x1'' ''L'' 1)\<lparr>CardDoc.archived := True\<rparr>,
                mkCard ''c2'' ''L'' 2]"

text \<open>Two cards of list \<open>A\<close> beside an archived card of list \<open>X\<close>; parents \<open>A = [a0@0, a1@1]\<close> and \<open>B = [b0@0]\<close>.\<close>

definition cardsAX :: "CardDoc list" where
  "cardsAX = [mkCard ''a0'' ''A'' 0, mkCard ''a1'' ''A'' 1,
              (mkCard ''x0'' ''X'' 0)\<lparr>CardDoc.archived := True\<rparr>]"

definition cardsAB :: "CardDoc list" where
  "cardsAB = [mkCard ''a0'' ''A'' 0, mkCard ''a1'' ''A'' 1, mkCard ''b0'' ''B'' 0]"




text \<open>
  Parent A again, the card \<open>a0\<close> now with a due date at time 1000; parents \<open>A\<close> and \<open>B\<close>
  likewise; and a store with an empty list \<open>L\<close> beside a list \<open>G\<close> that holds a card due at
  time 1000.
\<close>

definition cardsDue :: "CardDoc list" where
  "cardsDue = [(mkCard ''a0'' ''A'' 0)\<lparr>dueDate := Some 1000\<rparr>, mkCard ''a1'' ''A'' 1,
               mkCard ''a2'' ''A'' 2, mkCard ''a3'' ''A'' 3]"

definition cardsDueAB :: "CardDoc list" where
  "cardsDueAB = [(mkCard ''a0'' ''A'' 0)\<lparr>dueDate := Some 1000\<rparr>, mkCard ''a1'' ''A'' 1,
                 mkCard ''b0'' ''B'' 0]"


section \<open>Auxiliary lemmas\<close>

lemma same_id_same_card:
  "distinct (map card_id coll) \<Longrightarrow> this \<in> set coll \<Longrightarrow> c \<in> set coll
   \<Longrightarrow> card_id c = card_id this \<Longrightarrow> c = this"
  by (meson distinct_map inj_onD)

lemma same_id_same_list:
  "distinct (map list_id coll) \<Longrightarrow> this \<in> set coll \<Longrightarrow> l \<in> set coll
   \<Longrightarrow> list_id l = list_id this \<Longrightarrow> l = this"
  by (meson distinct_map inj_onD)

lemma list_ex_updateMany_card_id:
  "list_ex (\<lambda>d. card_id d = i) (updateMany flt (card_inc k) coll) = list_ex (\<lambda>d. card_id d = i) coll"
  by (induction coll) (auto simp: updateMany_def card_inc_def)

lemma list_ex_updateMany_list_id:
  "list_ex (\<lambda>d. list_id d = i) (updateMany flt (list_inc k) coll) = list_ex (\<lambda>d. list_id d = i) coll"
  by (induction coll) (auto simp: updateMany_def list_inc_def)

lemma list_ex_mem: "x \<in> set xs \<Longrightarrow> P x \<Longrightarrow> list_ex P xs"
  by (auto simp: list_ex_iff)

lemma moveToList_within:
  assumes "distinct (map card_id coll)" and "this \<in> set coll" and "0 \<le> t"
    and "dueDate_validator now (dueDate this)"
  shows "moveToList now coll this (listId this) (Some t) =
           (map (\<lambda>c. if card_id c = card_id this then c\<lparr>CardDoc.position := t\<rparr>
                      else if listId c = listId this \<and> CardDoc.position this < CardDoc.position c
                              \<and> CardDoc.position c \<le> t
                           then c\<lparr>CardDoc.position := CardDoc.position c - 1\<rparr>
                      else if listId c = listId this \<and> t \<le> CardDoc.position c
                              \<and> CardDoc.position c < CardDoc.position this
                           then c\<lparr>CardDoc.position := CardDoc.position c + 1\<rparr>
                      else c) coll,
            Inr (this\<lparr>CardDoc.position := t\<rparr>))"
proof -
  have same: "\<And>c. c \<in> set coll \<Longrightarrow> card_id c = card_id this \<Longrightarrow> c = this"
    using assms(1,2) same_id_same_card by blast
  have ex: "list_ex (\<lambda>d. card_id d = card_id this) coll"
    using assms(2) by (rule list_ex_mem) simp
  show ?thesis
  proof (cases "t = CardDoc.position this")
    case True
    let ?g = "\<lambda>c. if card_id c = card_id this then c\<lparr>CardDoc.position := t\<rparr>
                 else if listId c = listId this \<and> CardDoc.position this < CardDoc.position c
                         \<and> CardDoc.position c \<le> t
                      then c\<lparr>CardDoc.position := CardDoc.position c - 1\<rparr>
                 else if listId c = listId this \<and> t \<le> CardDoc.position c
                         \<and> CardDoc.position c < CardDoc.position this
                      then c\<lparr>CardDoc.position := CardDoc.position c + 1\<rparr>
                 else c"
    have "?g c = c" if "c \<in> set coll" for c
    proof (cases "card_id c = card_id this")
      case True
      with same that have "c = this" by blast
      with \<open>t = CardDoc.position this\<close> show ?thesis by simp
    next
      case False
      with \<open>t = CardDoc.position this\<close> show ?thesis by simp
    qed
    then have "map ?g coll = coll"
      by (intro map_idI)
    moreover have "moveToList now coll this (listId this) (Some t) = (coll, Inr this)"
      using True by (simp add: moveToList_def)
    moreover have "this\<lparr>CardDoc.position := t\<rparr> = this"
      using True by simp
    ultimately show ?thesis by simp
  next
    case False
    have ex': "list_ex (\<lambda>d. card_id d = card_id this) (updateMany flt (card_inc k) coll)" for flt k
      using ex by (simp add: list_ex_updateMany_card_id)
    have same': "c\<lparr>listId := listId this, CardDoc.position := t\<rparr> = c\<lparr>CardDoc.position := t\<rparr>"
      if "c \<in> set coll" "card_id c = card_id this" for c
      using same [OF that] by simp
    show ?thesis
    proof (cases "t > CardDoc.position this")
      case True
      then show ?thesis using assms(3,4) ex' same'
        by (simp add: moveToList_def Let_def card_save_def)
           (auto simp: updateMany_def card_inc_def)
    next
      case down: False
      then show ?thesis using False assms(3,4) ex' same'
        by (simp add: moveToList_def Let_def card_save_def)
           (auto simp: updateMany_def card_inc_def)
    qed
  qed
qed


lemma moveToPosition_shift:
  assumes "distinct (map list_id coll)" and "this \<in> set coll" and "0 \<le> t"
  shows "moveToPosition coll this t =
           (map (\<lambda>l. if list_id l = list_id this then l\<lparr>ListDoc.position := t\<rparr>
                      else if ListDoc.boardId l = ListDoc.boardId this
                              \<and> ListDoc.position this < ListDoc.position l \<and> ListDoc.position l \<le> t
                           then l\<lparr>ListDoc.position := ListDoc.position l - 1\<rparr>
                      else if ListDoc.boardId l = ListDoc.boardId this
                              \<and> t \<le> ListDoc.position l \<and> ListDoc.position l < ListDoc.position this
                           then l\<lparr>ListDoc.position := ListDoc.position l + 1\<rparr>
                      else l) coll,
            Inr (this\<lparr>ListDoc.position := t\<rparr>))"
proof -
  have same: "\<And>l. l \<in> set coll \<Longrightarrow> list_id l = list_id this \<Longrightarrow> l = this"
    using assms(1,2) same_id_same_list by blast
  have ex: "list_ex (\<lambda>d. list_id d = list_id this) coll"
    using assms(2) by (rule list_ex_mem) simp
  show ?thesis
  proof (cases "t = ListDoc.position this")
    case True
    let ?g = "\<lambda>l. if list_id l = list_id this then l\<lparr>ListDoc.position := t\<rparr>
                 else if ListDoc.boardId l = ListDoc.boardId this
                         \<and> ListDoc.position this < ListDoc.position l \<and> ListDoc.position l \<le> t
                      then l\<lparr>ListDoc.position := ListDoc.position l - 1\<rparr>
                 else if ListDoc.boardId l = ListDoc.boardId this
                         \<and> t \<le> ListDoc.position l \<and> ListDoc.position l < ListDoc.position this
                      then l\<lparr>ListDoc.position := ListDoc.position l + 1\<rparr>
                 else l"
    have "?g l = l" if "l \<in> set coll" for l
    proof (cases "list_id l = list_id this")
      case True
      with same that have "l = this" by blast
      with \<open>t = ListDoc.position this\<close> show ?thesis by simp
    next
      case False
      with \<open>t = ListDoc.position this\<close> show ?thesis by simp
    qed
    then have "map ?g coll = coll"
      by (intro map_idI)
    moreover have "moveToPosition coll this t = (coll, Inr this)"
      using True assms(3) by (simp add: moveToPosition_def)
    moreover have "this\<lparr>ListDoc.position := t\<rparr> = this"
      using True by simp
    ultimately show ?thesis by simp
  next
    case False
    have ex': "list_ex (\<lambda>d. list_id d = list_id this) (updateMany flt (list_inc k) coll)" for flt k
      using ex by (simp add: list_ex_updateMany_list_id)
    show ?thesis
    proof (cases "t > ListDoc.position this")
      case True
      then show ?thesis using assms(3) ex' same
        by (simp add: moveToPosition_def Let_def list_save_def)
           (auto simp: updateMany_def list_inc_def)
    next
      case down: False
      then show ?thesis using False assms(3) ex' same
        by (simp add: moveToPosition_def Let_def list_save_def)
           (auto simp: updateMany_def list_inc_def)
    qed
  qed
qed


lemma findById_Some: "findById key i coll = Some d \<Longrightarrow> key d = i \<and> d \<in> set coll"
  by (auto simp: findById_def find_Some_iff)

lemma filter_archived_updateMany_nonarchived:
  "filter CardDoc.archived (updateMany flt f coll) = filter CardDoc.archived coll"
  if "\<And>c. CardDoc.archived (f c) = CardDoc.archived c" and "\<And>c. flt c \<Longrightarrow> \<not> CardDoc.archived c"
  using that by (induction coll) (auto simp: updateMany_def)

subsection \<open>Dense position lists\<close>






lemma dense_remove_compact:
  assumes "dense (xs @ a # ys)"
  shows "dense (map (\<lambda>p. if p > a then p - 1 else p) (xs @ ys))"
proof -
  let ?f = "\<lambda>p::int. if p > a then p - 1 else p"
  let ?n = "int (length xs + length ys)"
  have d: "distinct (xs @ a # ys)" and s: "set (xs @ a # ys) = {0..<?n + 1}"
    using assms by (simp_all add: dense_def ac_simps)
  have s': "set (xs @ ys) = {0..<?n + 1} - {a}"
    using d s by auto
  have a: "0 \<le> a" "a < ?n + 1" using s by auto
  have "inj_on ?f (set (xs @ ys))"
    unfolding s' inj_on_def by (auto split: if_splits)
  moreover have "distinct (xs @ ys)" using d by simp
  ultimately have 1: "distinct (map ?f (xs @ ys))"
    using distinct_map by blast
  have 2: "?f ` ({0..<?n + 1} - {a}) = {0..<?n}"
  proof (intro equalityI subsetI)
    fix q assume "q \<in> ?f ` ({0..<?n + 1} - {a})"
    then show "q \<in> {0..<?n}" using a by (auto split: if_splits)
  next
    fix q assume q: "q \<in> {0..<?n}"
    show "q \<in> ?f ` ({0..<?n + 1} - {a})"
    proof (cases "q < a")
      case True
      then have "q = ?f q" "q \<in> {0..<?n + 1} - {a}" using q by auto
      then show ?thesis by (rule image_eqI)
    next
      case False
      then have "q = ?f (q + 1)" "q + 1 \<in> {0..<?n + 1} - {a}" using q by auto
      then show ?thesis by (rule image_eqI)
    qed
  qed
  have 3: "set (map ?f (xs @ ys)) = {0..<?n}"
    using 2 s' by (simp only: set_map)
  have 4: "int (length (map ?f (xs @ ys))) = ?n" by simp
  show ?thesis
    unfolding dense_def 4 using 1 3 by blast
qed

lemma dense_insert_shift:
  assumes "dense (xs @ ys)" and "0 \<le> t" and "t \<le> int (length (xs @ ys))"
  shows "dense (map (\<lambda>p. if p \<ge> t then p + 1 else p) xs @ t # map (\<lambda>p. if p \<ge> t then p + 1 else p) ys)"
proof -
  let ?f = "\<lambda>p::int. if p \<ge> t then p + 1 else p"
  let ?n = "int (length xs + length ys)"
  have d: "distinct (xs @ ys)" and s: "set (xs @ ys) = {0..<?n}"
    using assms(1) by (simp_all add: dense_def)
  have inj: "inj_on ?f (set (xs @ ys))"
    unfolding inj_on_def by (auto split: if_splits)
  have 1: "distinct (map ?f (xs @ ys))"
    using d inj distinct_map by blast
  have nt: "t \<notin> ?f ` set (xs @ ys)" by (auto split: if_splits)
  have 2: "insert t (?f ` {0..<?n}) = {0..<?n + 1}"
  proof (intro equalityI subsetI)
    fix q assume "q \<in> insert t (?f ` {0..<?n})"
    then show "q \<in> {0..<?n + 1}" using assms(2,3) by (auto split: if_splits)
  next
    fix q assume q: "q \<in> {0..<?n + 1}"
    consider "q < t" | "q = t" | "q > t" by linarith
    then show "q \<in> insert t (?f ` {0..<?n})"
    proof cases
      case 1
      then have "q = ?f q" "q \<in> {0..<?n}" using q assms(3) by auto
      then have "q \<in> ?f ` {0..<?n}" by (rule image_eqI)
      then show ?thesis by simp
    next
      case 2
      then show ?thesis by simp
    next
      case 3
      then have "q = ?f (q - 1)" "q - 1 \<in> {0..<?n}" using q assms(2) by auto
      then have "q \<in> ?f ` {0..<?n}" by (rule image_eqI)
      then show ?thesis by simp
    qed
  qed
  have 3: "distinct (map ?f xs @ t # map ?f ys)"
    using 1 nt by (auto simp: image_Un)
  have 4: "set (map ?f xs @ t # map ?f ys) = insert t (?f ` set (xs @ ys))"
    by (auto simp: image_Un)
  have 5: "int (length (map ?f xs @ t # map ?f ys)) = ?n + 1" by simp
  have 6: "set (map ?f xs @ t # map ?f ys) = {0..<?n + 1}"
    using 4 2 s by (simp only:)
  show ?thesis
    unfolding dense_def 5 using 3 6 by blast
qed

lemma positions_map:
  assumes "\<And>c. c \<in> set coll \<Longrightarrow> P (g c) = P c"
    and "\<And>c. c \<in> set coll \<Longrightarrow> P c \<Longrightarrow> pos (g c) = f (pos c)"
  shows "map pos (filter P (map g coll)) = map f (map pos (filter P coll))"
  using assms by (induction coll) auto

subsection \<open>Positions of the documents of one parent\<close>

lemma positions_unchanged_dense:
  assumes "dense (map pos (filter P coll))"
    and "\<And>c. c \<in> set coll \<Longrightarrow> P (g c) = P c"
    and "\<And>c. c \<in> set coll \<Longrightarrow> P c \<Longrightarrow> pos (g c) = pos c"
  shows "dense (map pos (filter P (map g coll)))"
proof -
  have "map pos (filter P (map g coll)) = map (\<lambda>p. p) (map pos (filter P coll))"
    using assms(2,3) by (rule positions_map)
  then show ?thesis using assms(1) by simp
qed


lemma positions_removed_dense:
  assumes "dense (map pos (filter P (xs @ this # ys)))" and "P this"
    and "\<And>c. c \<in> set xs \<union> set ys \<Longrightarrow> P (g c) = P c"
    and "\<And>c. c \<in> set xs \<union> set ys \<Longrightarrow> P c \<Longrightarrow>
           pos (g c) = (if pos c > pos this then pos c - 1 else pos c)"
  shows "dense (map pos (filter P (map g (xs @ ys))))"
proof -
  let ?f = "\<lambda>p::int. if p > pos this then p - 1 else p"
  have "map pos (filter P (map g (xs @ ys))) = map ?f (map pos (filter P (xs @ ys)))"
    using assms(3,4) by (intro positions_map) auto
  also have "\<dots> = map ?f (map pos (filter P xs) @ map pos (filter P ys))" by simp
  finally have e: "map pos (filter P (map g (xs @ ys)))
      = map ?f (map pos (filter P xs) @ map pos (filter P ys))" .
  have "dense (map pos (filter P xs) @ pos this # map pos (filter P ys))"
    using assms(1,2) by simp
  then show ?thesis unfolding e by (rule dense_remove_compact)
qed

lemma positions_inserted_dense:
  assumes "dense (map pos (filter P (xs @ this # ys)))" and "\<not> P this" and "P (g this)"
    and "0 \<le> pos (g this)" and "pos (g this) \<le> int (length (filter P (xs @ this # ys)))"
    and "\<And>c. c \<in> set xs \<union> set ys \<Longrightarrow> P (g c) = P c"
    and "\<And>c. c \<in> set xs \<union> set ys \<Longrightarrow> P c \<Longrightarrow>
           pos (g c) = (if pos c \<ge> pos (g this) then pos c + 1 else pos c)"
  shows "dense (map pos (filter P (map g (xs @ this # ys))))"
proof -
  let ?t = "pos (g this)"
  let ?f = "\<lambda>p::int. if p \<ge> ?t then p + 1 else p"
  have x: "map pos (filter P (map g xs)) = map ?f (map pos (filter P xs))"
    using assms(6,7) by (intro positions_map) auto
  have y: "map pos (filter P (map g ys)) = map ?f (map pos (filter P ys))"
    using assms(6,7) by (intro positions_map) auto
  have e: "map pos (filter P (map g (xs @ this # ys)))
      = map ?f (map pos (filter P xs)) @ ?t # map ?f (map pos (filter P ys))"
    using assms(3) x y by simp
  have d: "dense (map pos (filter P xs) @ map pos (filter P ys))"
    using assms(1,2) by simp
  have l: "?t \<le> int (length (map pos (filter P xs) @ map pos (filter P ys)))"
    using assms(2,5) by simp
  show ?thesis unfolding e using d assms(4) l by (rule dense_insert_shift)
qed

lemma split_by_id:
  assumes "distinct (map key coll)" and "this \<in> set coll"
  obtains xs ys where "coll = xs @ this # ys"
    and "\<And>c. c \<in> set xs \<union> set ys \<Longrightarrow> key c \<noteq> key this"
proof -
  from assms(2) obtain xs ys where c: "coll = xs @ this # ys"
    by (meson split_list)
  have "key c \<noteq> key this" if "c \<in> set xs \<union> set ys" for c
    using assms(1) that unfolding c by (auto simp: image_iff)
  with c show ?thesis using that by blast
qed

subsection \<open>The card model keeps I1\<close>

lemma countDocuments_updateMany_listId:
  "countDocuments (\<lambda>c. listId c = l) (updateMany flt (card_inc k) coll)
   = countDocuments (\<lambda>c. listId c = l) coll"
  by (induction coll) (auto simp: countDocuments_def updateMany_def card_inc_def)

lemma moveToList_across:
  assumes "distinct (map card_id coll)" and "this \<in> set coll" and "newListId \<noteq> listId this"
    and "p = (case newPosition of
                None \<Rightarrow> int (countDocuments (\<lambda>c. listId c = newListId) coll)
              | Some t \<Rightarrow> t)"
    and "0 \<le> p"
    and "dueDate_validator now (dueDate this)"
  shows "moveToList now coll this newListId newPosition =
           (map (\<lambda>c. if card_id c = card_id this
                        then c\<lparr>listId := newListId, CardDoc.position := p\<rparr>
                      else if listId c = listId this \<and> CardDoc.position this < CardDoc.position c
                        then c\<lparr>CardDoc.position := CardDoc.position c - 1\<rparr>
                      else if listId c = newListId \<and> p \<le> CardDoc.position c
                        then c\<lparr>CardDoc.position := CardDoc.position c + 1\<rparr>
                      else c) coll,
            Inr (this\<lparr>listId := newListId, CardDoc.position := p\<rparr>))"
proof -
  have same: "\<And>c. c \<in> set coll \<Longrightarrow> card_id c = card_id this \<Longrightarrow> c = this"
    using assms(1,2) same_id_same_card by blast
  have ex: "list_ex (\<lambda>d. card_id d = card_id this) coll"
    using assms(2) by (rule list_ex_mem) simp
  have ex': "list_ex (\<lambda>d. card_id d = card_id this)
               (updateMany flt (card_inc k) (updateMany flt' (card_inc k') coll))" for flt k flt' k'
    using ex by (simp add: list_ex_updateMany_card_id)
  let ?coll1 = "updateMany (\<lambda>c. listId c = listId this \<and> CardDoc.position c > CardDoc.position this)
                  (card_inc (- 1)) coll"
  have p: "(case newPosition of
              None \<Rightarrow> int (countDocuments (\<lambda>c. listId c = newListId) ?coll1)
            | Some t \<Rightarrow> t) = p"
    unfolding assms(4) by (simp add: countDocuments_updateMany_listId split: option.splits)
  have m: "moveToList now coll this newListId newPosition =
      card_save now (updateMany (\<lambda>c. listId c = newListId \<and> CardDoc.position c \<ge> p) (card_inc 1) ?coll1)
        (this\<lparr>listId := newListId, CardDoc.position := p\<rparr>)"
    using assms(3) p by (simp add: moveToList_def Let_def)
  show ?thesis
    unfolding m using assms(3,5,6) ex' same
    by (simp add: card_save_def) (auto simp: updateMany_def card_inc_def)
qed




lemma I1_cards_moveToList_across:
  assumes "distinct (map card_id coll)" and "this \<in> set coll" and "CardDoc.archived this = False"
    and "newListId \<noteq> listId this"
    and "p = (case newPosition of
                None \<Rightarrow> int (countDocuments (\<lambda>c. listId c = newListId) coll)
              | Some t \<Rightarrow> t)"
    and "0 \<le> p"
    and "spec_I1_cards coll L"
    and "L = newListId \<Longrightarrow> p \<le> int (spec_siblingCount_cards coll L)"
    and "dueDate_validator now (dueDate this)"
  shows "spec_I1_cards (fst (moveToList now coll this newListId newPosition)) L"
proof -
  let ?P = "\<lambda>c. listId c = L \<and> CardDoc.archived c = False"
  let ?cur = "CardDoc.position this"
  let ?g = "\<lambda>c. if card_id c = card_id this
                        then c\<lparr>listId := newListId, CardDoc.position := p\<rparr>
                      else if listId c = listId this \<and> ?cur < CardDoc.position c
                        then c\<lparr>CardDoc.position := CardDoc.position c - 1\<rparr>
                      else if listId c = newListId \<and> p \<le> CardDoc.position c
                        then c\<lparr>CardDoc.position := CardDoc.position c + 1\<rparr>
                      else c"
  have m: "fst (moveToList now coll this newListId newPosition) = map ?g coll"
    using moveToList_across [OF assms(1,2,4,5,6,9)] by simp
  obtain xs ys where c: "coll = xs @ this # ys"
    and other: "\<And>c. c \<in> set xs \<union> set ys \<Longrightarrow> card_id c \<noteq> card_id this"
    using split_by_id [OF assms(1,2)] by blast
  have d: "dense (map CardDoc.position (filter ?P (xs @ this # ys)))"
    using assms(7) by (simp add: spec_I1_cards_def spec_siblingCards_def c)
  have keep: "?P (?g c) = ?P c" if "c \<in> set xs \<union> set ys" for c
    using other [OF that] by simp
  have "dense (map CardDoc.position (filter ?P (map ?g (xs @ this # ys))))"
  proof -
    consider (src) "L = listId this" | (dst) "L = newListId" | (other) "L \<noteq> listId this" "L \<noteq> newListId"
      by blast
    then show ?thesis
    proof cases
      case src
      have Pthis: "?P this" using src assms(3) by simp
      have e: "filter ?P (map ?g (xs @ this # ys)) = filter ?P (map ?g (xs @ ys))"
        using src assms(4) by simp
      have pos: "CardDoc.position (?g c)
                 = (if CardDoc.position c > ?cur then CardDoc.position c - 1 else CardDoc.position c)"
        if "c \<in> set xs \<union> set ys" "?P c" for c
        using other [OF that(1)] that(2) src assms(4) by simp
      have "dense (map CardDoc.position (filter ?P (map ?g (xs @ ys))))"
        using d Pthis keep pos by (rule positions_removed_dense)
      then show ?thesis by (simp only: e)
    next
      case dst
      have nP: "\<not> ?P this" using dst assms(4) by simp
      have Pg: "?P (?g this)" using dst assms(3) by simp
      have pg: "CardDoc.position (?g this) = p" by simp
      have le: "p \<le> int (length (filter ?P (xs @ this # ys)))"
        using assms(8) [OF dst] by (simp add: spec_siblingCount_cards_def spec_siblingCards_def c)
      have pos: "CardDoc.position (?g c)
                 = (if CardDoc.position c \<ge> CardDoc.position (?g this)
                    then CardDoc.position c + 1 else CardDoc.position c)"
        if "c \<in> set xs \<union> set ys" "?P c" for c
        unfolding pg using other [OF that(1)] that(2) dst assms(4) by simp
      show ?thesis
        using d nP Pg _ _ keep pos
        by (rule positions_inserted_dense) (simp_all only: pg assms(6) le)
    next
      case other
      have nid: "card_id c \<noteq> card_id this" if "c \<in> set (xs @ this # ys)" "listId c = L" for c
        using same_id_same_card [OF assms(1,2), of c] that other(1) unfolding c by blast
      have keep': "?P (?g c) = ?P c" if "c \<in> set (xs @ this # ys)" for c
        using other nid [OF that] by auto
      have pos: "CardDoc.position (?g c) = CardDoc.position c"
        if "c \<in> set (xs @ this # ys)" "?P c" for c
        using that(2) other nid [OF that(1)] by auto
      show ?thesis using d keep' pos by (rule positions_unchanged_dense)
    qed
  qed
  then have "dense (map CardDoc.position (filter ?P (map ?g coll)))"
    by (simp only: c)
  then show ?thesis
    unfolding spec_I1_cards_def spec_siblingCards_def m .
qed




subsection \<open>The list model keeps I1\<close>







lemma count_pair_preserved:
  assumes "\<And>c. c \<in> set xs \<Longrightarrow>
             (if P (g c) then 1 else 0) + (if Q (g c) then 1 else 0)
               = (if P c then (1::nat) else 0) + (if Q c then 1 else 0)"
  shows "length (filter P (map g xs)) + length (filter Q (map g xs))
         = length (filter P xs) + length (filter Q xs)"
  using assms
proof (induction xs)
  case Nil
  then show ?case by simp
next
  case (Cons x xs)
  have "length (filter P (map g xs)) + length (filter Q (map g xs))
         = length (filter P xs) + length (filter Q xs)"
    using Cons by simp
  moreover have "(if P (g x) then 1 else 0) + (if Q (g x) then 1 else 0)
               = (if P x then (1::nat) else 0) + (if Q x then 1 else 0)"
    using Cons.prems by simp
  ultimately show ?case by (simp split: if_splits)
qed

subsection \<open>Every request keeps I1\<close>



























section \<open>Moving a card to its own list without a position\<close>

text \<open>
  C10. Calling \<open>moveToList\<close> with the card's current list and a null position returns the
  card as it is and leaves the whole collection unchanged; no error is raised.
\<close>

theorem moveToList_same_list_null_noop:
  "newListId = listId this \<Longrightarrow> moveToList now coll this newListId None = (coll, Inr this)"
  by (simp add: moveToList_def)

theorem moveToList_same_list_null_noop_witness:
  "''A'' = listId (mkCard ''a0'' ''A'' 0)
   \<and> moveToList 2000 [mkCard ''a0'' ''A'' 0, mkCard ''a1'' ''A'' 1] (mkCard ''a0'' ''A'' 0) ''A'' None
       = ([mkCard ''a0'' ''A'' 0, mkCard ''a1'' ''A'' 1], Inr (mkCard ''a0'' ''A'' 0))"
proof -
  have h: "''A'' = listId (mkCard ''a0'' ''A'' 0)" by (simp add: mkCard_def)
  show ?thesis using h moveToList_same_list_null_noop [OF h] by simp
qed

section \<open>Moving within a parent\<close>




section \<open>Targets outside the range\<close>

text \<open>
  C5, as stated, fails on the code: neither model method compares the target with the number
  of siblings. Moving \<open>a0\<close> of \<open>[a0@0, a1@1, a2@2, a3@3]\<close> to position 7 succeeds and
  leaves \<open>a0\<close> at 7, past the end. When the due date of the card \<open>a0\<close> has passed (due at
  1000, moved at 2000) the same call is rejected, but by the \<open>dueDate\<close> validator of
  \<open>this.save()\<close> and after the siblings were shifted: they stay at 0, 1, 2 with \<open>a0\<close> still
  at 0.
\<close>

theorem move_within_out_of_range_counterexample:
  "\<not> (7 < int (spec_siblingCount_cards cardsA ''A''))
   \<and> moveToList 2000 cardsA (mkCard ''a0'' ''A'' 0) ''A'' (Some 7) =
       ([mkCard ''a0'' ''A'' 7, mkCard ''a1'' ''A'' 0, mkCard ''a2'' ''A'' 1, mkCard ''a3'' ''A'' 2],
        Inr (mkCard ''a0'' ''A'' 7))
   \<and> \<not> (7 < int (spec_siblingCount_lists listsA ''A''))
   \<and> moveToPosition listsA (mkList ''a0'' ''A'' 0) 7 =
       ([mkList ''a0'' ''A'' 7, mkList ''a1'' ''A'' 0, mkList ''a2'' ''A'' 1, mkList ''a3'' ''A'' 2],
        Inr (mkList ''a0'' ''A'' 7))
   \<and> moveToList 2000 cardsDue ((mkCard ''a0'' ''A'' 0)\<lparr>dueDate := Some 1000\<rparr>) ''A'' (Some 7) =
       ([(mkCard ''a0'' ''A'' 0)\<lparr>dueDate := Some 1000\<rparr>, mkCard ''a1'' ''A'' 0,
         mkCard ''a2'' ''A'' 1, mkCard ''a3'' ''A'' 2],
        Inl ValidationError)"
  by (simp add: moveToList_def moveToPosition_def Let_def card_save_def list_save_def updateMany_def
      dueDate_validator_def card_inc_def list_inc_def spec_siblingCount_cards_def
      spec_siblingCards_def spec_siblingCount_lists_def spec_siblingLists_def cardsA_def
      cardsDue_def listsA_def mkCard_def mkList_def)

text \<open>
  C5, amended. A list reorder to a negative target throws \<open>Position cannot be negative\<close>
  before any write, so the collection is unchanged. A move within a parent to a target at
  or beyond the sibling count, hence after the item's current position, is accepted, for a
  card provided that its due date, if it has one, has not passed: the item is stored at the
  target, the siblings after its old position up to the target move down by one, every other
  item is unchanged.
\<close>

theorem move_within_out_of_range:
  "(v < 0 \<longrightarrow> moveToPosition lcoll lthis v = (lcoll, Inl PositionNegative))
   \<and> (distinct (map list_id lcoll) \<and> lthis \<in> set lcoll
        \<and> int (spec_siblingCount_lists lcoll (ListDoc.boardId lthis)) \<le> u \<and> ListDoc.position lthis < u
      \<longrightarrow> moveToPosition lcoll lthis u =
            (map (\<lambda>l. if list_id l = list_id lthis then l\<lparr>ListDoc.position := u\<rparr>
                       else if ListDoc.boardId l = ListDoc.boardId lthis
                               \<and> ListDoc.position lthis < ListDoc.position l \<and> ListDoc.position l \<le> u
                            then l\<lparr>ListDoc.position := ListDoc.position l - 1\<rparr>
                       else l) lcoll,
             Inr (lthis\<lparr>ListDoc.position := u\<rparr>)))
   \<and> (distinct (map card_id coll) \<and> this \<in> set coll
        \<and> int (spec_siblingCount_cards coll (listId this)) \<le> t \<and> CardDoc.position this < t
        \<and> dueDate_validator now (dueDate this)
      \<longrightarrow> moveToList now coll this (listId this) (Some t) =
            (map (\<lambda>c. if card_id c = card_id this then c\<lparr>CardDoc.position := t\<rparr>
                       else if listId c = listId this \<and> CardDoc.position this < CardDoc.position c
                               \<and> CardDoc.position c \<le> t
                            then c\<lparr>CardDoc.position := CardDoc.position c - 1\<rparr>
                       else c) coll,
             Inr (this\<lparr>CardDoc.position := t\<rparr>)))"
proof (intro conjI impI)
  assume "v < 0"
  then show "moveToPosition lcoll lthis v = (lcoll, Inl PositionNegative)"
    by (simp add: moveToPosition_def)
next
  assume a: "distinct (map list_id lcoll) \<and> lthis \<in> set lcoll
        \<and> int (spec_siblingCount_lists lcoll (ListDoc.boardId lthis)) \<le> u \<and> ListDoc.position lthis < u"
  then have "0 \<le> u" by linarith
  with a have "moveToPosition lcoll lthis u =
           (map (\<lambda>l. if list_id l = list_id lthis then l\<lparr>ListDoc.position := u\<rparr>
                      else if ListDoc.boardId l = ListDoc.boardId lthis
                              \<and> ListDoc.position lthis < ListDoc.position l \<and> ListDoc.position l \<le> u
                           then l\<lparr>ListDoc.position := ListDoc.position l - 1\<rparr>
                      else if ListDoc.boardId l = ListDoc.boardId lthis
                              \<and> u \<le> ListDoc.position l \<and> ListDoc.position l < ListDoc.position lthis
                           then l\<lparr>ListDoc.position := ListDoc.position l + 1\<rparr>
                      else l) lcoll,
            Inr (lthis\<lparr>ListDoc.position := u\<rparr>))"
    by (intro moveToPosition_shift) simp_all
  moreover have "(u \<le> ListDoc.position l \<and> ListDoc.position l < ListDoc.position lthis) = False" for l
    using a by auto
  ultimately show "moveToPosition lcoll lthis u =
            (map (\<lambda>l. if list_id l = list_id lthis then l\<lparr>ListDoc.position := u\<rparr>
                       else if ListDoc.boardId l = ListDoc.boardId lthis
                               \<and> ListDoc.position lthis < ListDoc.position l \<and> ListDoc.position l \<le> u
                            then l\<lparr>ListDoc.position := ListDoc.position l - 1\<rparr>
                       else l) lcoll,
             Inr (lthis\<lparr>ListDoc.position := u\<rparr>))"
    by auto
next
  assume a: "distinct (map card_id coll) \<and> this \<in> set coll
        \<and> int (spec_siblingCount_cards coll (listId this)) \<le> t \<and> CardDoc.position this < t
        \<and> dueDate_validator now (dueDate this)"
  then have "0 \<le> t" by linarith
  with a have "moveToList now coll this (listId this) (Some t) =
           (map (\<lambda>c. if card_id c = card_id this then c\<lparr>CardDoc.position := t\<rparr>
                      else if listId c = listId this \<and> CardDoc.position this < CardDoc.position c
                              \<and> CardDoc.position c \<le> t
                           then c\<lparr>CardDoc.position := CardDoc.position c - 1\<rparr>
                      else if listId c = listId this \<and> t \<le> CardDoc.position c
                              \<and> CardDoc.position c < CardDoc.position this
                           then c\<lparr>CardDoc.position := CardDoc.position c + 1\<rparr>
                      else c) coll,
            Inr (this\<lparr>CardDoc.position := t\<rparr>))"
    by (intro moveToList_within) simp_all
  moreover have "(t \<le> CardDoc.position c \<and> CardDoc.position c < CardDoc.position this) = False" for c
    using a by auto
  ultimately show "moveToList now coll this (listId this) (Some t) =
            (map (\<lambda>c. if card_id c = card_id this then c\<lparr>CardDoc.position := t\<rparr>
                       else if listId c = listId this \<and> CardDoc.position this < CardDoc.position c
                               \<and> CardDoc.position c \<le> t
                            then c\<lparr>CardDoc.position := CardDoc.position c - 1\<rparr>
                       else c) coll,
             Inr (this\<lparr>CardDoc.position := t\<rparr>))"
    by auto
qed

theorem move_within_out_of_range_witness:
  "((- 1::int) < 0 \<and> moveToPosition listsA (mkList ''a0'' ''A'' 0) (- 1) = (listsA, Inl PositionNegative))
   \<and> (distinct (map list_id listsA) \<and> mkList ''a0'' ''A'' 0 \<in> set listsA
        \<and> int (spec_siblingCount_lists listsA ''A'') \<le> 4
        \<and> ListDoc.position (mkList ''a0'' ''A'' 0) < 4
        \<and> moveToPosition listsA (mkList ''a0'' ''A'' 0) 4 =
            ([mkList ''a0'' ''A'' 4, mkList ''a1'' ''A'' 0, mkList ''a2'' ''A'' 1, mkList ''a3'' ''A'' 2],
             Inr (mkList ''a0'' ''A'' 4)))
   \<and> (distinct (map card_id cardsA) \<and> mkCard ''a0'' ''A'' 0 \<in> set cardsA
        \<and> int (spec_siblingCount_cards cardsA ''A'') \<le> 4
        \<and> CardDoc.position (mkCard ''a0'' ''A'' 0) < 4
        \<and> dueDate_validator 2000 (dueDate (mkCard ''a0'' ''A'' 0))
        \<and> moveToList 2000 cardsA (mkCard ''a0'' ''A'' 0) ''A'' (Some 4) =
            ([mkCard ''a0'' ''A'' 4, mkCard ''a1'' ''A'' 0, mkCard ''a2'' ''A'' 1, mkCard ''a3'' ''A'' 2],
             Inr (mkCard ''a0'' ''A'' 4)))"
proof -
  note r = move_within_out_of_range [of "- 1" listsA "mkList ''a0'' ''A'' 0" 4 cardsA
      "mkCard ''a0'' ''A'' 0" 4 2000]
  have n: "(- 1::int) < 0" by simp
  have l: "distinct (map list_id listsA) \<and> mkList ''a0'' ''A'' 0 \<in> set listsA
        \<and> int (spec_siblingCount_lists listsA (ListDoc.boardId (mkList ''a0'' ''A'' 0))) \<le> 4
        \<and> ListDoc.position (mkList ''a0'' ''A'' 0) < 4"
    by (simp add: listsA_def mkList_def spec_siblingCount_lists_def spec_siblingLists_def)
  have c: "distinct (map card_id cardsA) \<and> mkCard ''a0'' ''A'' 0 \<in> set cardsA
        \<and> int (spec_siblingCount_cards cardsA (listId (mkCard ''a0'' ''A'' 0))) \<le> 4
        \<and> CardDoc.position (mkCard ''a0'' ''A'' 0) < 4
        \<and> dueDate_validator 2000 (dueDate (mkCard ''a0'' ''A'' 0))"
    by (simp add: cardsA_def mkCard_def spec_siblingCount_cards_def spec_siblingCards_def
        dueDate_validator_def)
  have k: "listId (mkCard ''a0'' ''A'' 0) = ''A''" "ListDoc.boardId (mkList ''a0'' ''A'' 0) = ''A''"
    by (simp_all add: mkCard_def mkList_def)
  from r n have r1: "moveToPosition listsA (mkList ''a0'' ''A'' 0) (- 1) = (listsA, Inl PositionNegative)"
    by blast
  from r l have "moveToPosition listsA (mkList ''a0'' ''A'' 0) 4 =
            (map (\<lambda>l. if list_id l = list_id (mkList ''a0'' ''A'' 0) then l\<lparr>ListDoc.position := 4\<rparr>
                       else if ListDoc.boardId l = ListDoc.boardId (mkList ''a0'' ''A'' 0)
                               \<and> ListDoc.position (mkList ''a0'' ''A'' 0) < ListDoc.position l \<and> ListDoc.position l \<le> 4
                            then l\<lparr>ListDoc.position := ListDoc.position l - 1\<rparr>
                       else l) listsA,
             Inr ((mkList ''a0'' ''A'' 0)\<lparr>ListDoc.position := 4\<rparr>))"
    by blast
  then have r2: "moveToPosition listsA (mkList ''a0'' ''A'' 0) 4 =
            ([mkList ''a0'' ''A'' 4, mkList ''a1'' ''A'' 0, mkList ''a2'' ''A'' 1, mkList ''a3'' ''A'' 2],
             Inr (mkList ''a0'' ''A'' 4))"
    by (simp add: listsA_def mkList_def)
  from r c have "moveToList 2000 cardsA (mkCard ''a0'' ''A'' 0) (listId (mkCard ''a0'' ''A'' 0)) (Some 4) =
            (map (\<lambda>c. if card_id c = card_id (mkCard ''a0'' ''A'' 0) then c\<lparr>CardDoc.position := 4\<rparr>
                       else if listId c = listId (mkCard ''a0'' ''A'' 0) \<and> CardDoc.position (mkCard ''a0'' ''A'' 0) < CardDoc.position c
                               \<and> CardDoc.position c \<le> 4
                            then c\<lparr>CardDoc.position := CardDoc.position c - 1\<rparr>
                       else c) cardsA,
             Inr ((mkCard ''a0'' ''A'' 0)\<lparr>CardDoc.position := 4\<rparr>))"
    by blast
  then have r3: "moveToList 2000 cardsA (mkCard ''a0'' ''A'' 0) ''A'' (Some 4) =
            ([mkCard ''a0'' ''A'' 4, mkCard ''a1'' ''A'' 0, mkCard ''a2'' ''A'' 1, mkCard ''a3'' ''A'' 2],
             Inr (mkCard ''a0'' ''A'' 4))"
    by (simp add: cardsA_def mkCard_def)
  show ?thesis using n l c r1 r2 r3 by (simp add: k)
qed

section \<open>Failure after the shifts\<close>

text \<open>
  C8. \<open>moveToList\<close> issues its range shifts first and saves the moved card last. For the
  card \<open>a3\<close> of \<open>[a0@0, a1@1, a2@2, a3@3]\<close> and the target \<open>-1\<close> the schema validator
  rejects the save, the call fails, and the three siblings stay shifted to 1, 2, 3 while
  \<open>a3\<close> keeps position 3. \<open>moveToPosition\<close> of the list model checks the sign before its
  first write and leaves the collection as it was.
\<close>

theorem moveToList_negative_leaves_shifted_siblings:
  "moveToList now cardsA (mkCard ''a3'' ''A'' 3) ''A'' (Some (- 1)) =
     ([mkCard ''a0'' ''A'' 1, mkCard ''a1'' ''A'' 2, mkCard ''a2'' ''A'' 3, mkCard ''a3'' ''A'' 3],
      Inl ValidationError)
   \<and> moveToPosition listsA (mkList ''a3'' ''A'' 3) (- 1) = (listsA, Inl PositionNegative)"
  by (simp add: moveToList_def moveToPosition_def Let_def card_save_def updateMany_def
      card_inc_def cardsA_def mkCard_def)

section \<open>The card limit\<close>

text \<open>
  C7. List \<open>F\<close> has a card limit of one and holds one card. \<open>createCard\<close> never calls
  \<open>isCardLimitExceeded\<close>: the second card is created at position 1. \<open>moveCard\<close> into the
  same list is refused with the card-limit response and changes nothing.
\<close>

theorem createCard_ignores_card_limit:
  "isCardLimitExceeded (cards dbFull) ((mkList ''F'' ''B'' 0)\<lparr>cardLimit := Some 1\<rparr>)
   \<and> createCard dbFull ''u1'' ''f1'' ''F'' ''B'' =
       (dbFull\<lparr>cards := [mkCard ''f0'' ''F'' 0, mkCard ''g0'' ''G'' 0, mkCard ''f1'' ''F'' 1]\<rparr>,
        Inr (mkCard ''f1'' ''F'' 1))
   \<and> moveCard now dbFull ''u1'' ''g0'' ''F'' (Some 0) = (dbFull, Inl CardLimitReached)"
  by (simp add: isCardLimitExceeded_def createCard_def moveCard_def Let_def checkTargetList_def
      findById_def isMember_def countDocuments_def card_insert_def dbFull_def boardB_def
      mkCard_def mkList_def)

section \<open>The position given to a new item\<close>

text \<open>
  C4, as stated, fails on the code: \<open>createCard\<close> and \<open>createList\<close> count every document
  of the parent, archived ones included. In a list whose only card is archived, and in a
  board whose only list is archived, \<open>siblingCount\<close> is 0 and the new item gets position 1.
\<close>

theorem insert_counts_archived_counterexample:
  "spec_siblingCount_cards (cards dbArch) ''X'' = 0
   \<and> createCard dbArch ''u1'' ''x1'' ''X'' ''B'' =
       (dbArch\<lparr>cards := cards dbArch @ [mkCard ''x1'' ''X'' 1]\<rparr>, Inr (mkCard ''x1'' ''X'' 1))
   \<and> spec_siblingCount_lists (lists dbArch) ''B'' = 0
   \<and> createList dbArch ''u1'' ''Y'' ''B'' =
       (dbArch\<lparr>lists := lists dbArch @ [mkList ''Y'' ''B'' 1]\<rparr>, Inr (mkList ''Y'' ''B'' 1))"
  by (simp add: spec_siblingCount_cards_def spec_siblingCards_def spec_siblingCount_lists_def
      spec_siblingLists_def createCard_def createList_def findById_def isMember_def
      countDocuments_def card_insert_def list_insert_def Let_def dbArch_def boardB_def
      mkCard_def mkList_def)

text \<open>
  C4, amended. A successful \<open>createCard\<close> into a list without archived cards appends one
  card whose position is \<open>siblingCount\<close> of the list, so a list whose cards occupy \<open>0..n-1\<close>
  receives the new card at position \<open>n\<close>. A successful \<open>createList\<close> appends one list whose
  position is the number of lists of the board, archived ones included, which is
  \<open>siblingCount\<close> of the board when it has no archived list.
\<close>

theorem insert_position_is_sibling_count:
  assumes "findById board_id b (boards d) = Some board" and "isMember board userId"
  shows "(\<not> list_ex (\<lambda>c. card_id c = newId) (cards d)
            \<and> filter (\<lambda>c. listId c = l \<and> CardDoc.archived c) (cards d) = [] \<longrightarrow>
            createCard d userId newId l b =
              (d\<lparr>cards := cards d @
                    [\<lparr>card_id = newId, listId = l, boardId = b,
                      position = int (spec_siblingCount_cards (cards d) l),
                      archived = False, dueDate = None\<rparr>]\<rparr>,
               Inr \<lparr>card_id = newId, listId = l, boardId = b,
                     position = int (spec_siblingCount_cards (cards d) l),
                     archived = False, dueDate = None\<rparr>))
       \<and> (\<not> list_ex (\<lambda>x. list_id x = newListId) (lists d) \<longrightarrow>
            createList d userId newListId b =
              (d\<lparr>lists := lists d @
                    [\<lparr>list_id = newListId, boardId = b,
                      position = int (length (filter (\<lambda>x. ListDoc.boardId x = b) (lists d))),
                      archived = False, cardLimit = None\<rparr>]\<rparr>,
               Inr \<lparr>list_id = newListId, boardId = b,
                     position = int (length (filter (\<lambda>x. ListDoc.boardId x = b) (lists d))),
                     archived = False, cardLimit = None\<rparr>)
            \<and> (filter (\<lambda>x. ListDoc.boardId x = b \<and> ListDoc.archived x) (lists d) = [] \<longrightarrow>
                 int (length (filter (\<lambda>x. ListDoc.boardId x = b) (lists d)))
                   = int (spec_siblingCount_lists (lists d) b)))"
proof -
  have bid: "board_id board = b" using assms(1) findById_Some by fastforce
  have c: "filter (\<lambda>c. listId c = l \<and> CardDoc.archived c) coll = [] \<Longrightarrow>
          filter (\<lambda>c. listId c = l) coll = spec_siblingCards coll l" for coll
    unfolding spec_siblingCards_def by (intro filter_cong) (auto simp: filter_empty_conv)
  have ls: "filter (\<lambda>x. ListDoc.boardId x = b \<and> ListDoc.archived x) coll = [] \<Longrightarrow>
          filter (\<lambda>x. ListDoc.boardId x = b) coll = spec_siblingLists coll b" for coll
    unfolding spec_siblingLists_def by (intro filter_cong) (auto simp: filter_empty_conv)
  show ?thesis
    using assms bid
    by (auto simp: createCard_def createList_def countDocuments_def card_insert_def
        list_insert_def Let_def spec_siblingCount_cards_def spec_siblingCount_lists_def c ls)
qed

theorem insert_position_is_sibling_count_witness:
  "findById board_id ''B'' (boards dbFull) = Some boardB \<and> isMember boardB ''u1''
   \<and> \<not> list_ex (\<lambda>c. card_id c = ''g1'') (cards dbFull)
   \<and> filter (\<lambda>c. listId c = ''G'' \<and> CardDoc.archived c) (cards dbFull) = []
   \<and> spec_siblingCount_cards (cards dbFull) ''G'' = 1
   \<and> createCard dbFull ''u1'' ''g1'' ''G'' ''B'' =
        (dbFull\<lparr>cards := cards dbFull @ [mkCard ''g1'' ''G'' 1]\<rparr>, Inr (mkCard ''g1'' ''G'' 1))
   \<and> \<not> list_ex (\<lambda>x. list_id x = ''H'') (lists dbFull)
   \<and> filter (\<lambda>x. ListDoc.boardId x = ''B'' \<and> ListDoc.archived x) (lists dbFull) = []
   \<and> createList dbFull ''u1'' ''H'' ''B'' =
        (dbFull\<lparr>lists := lists dbFull @ [mkList ''H'' ''B'' 2]\<rparr>, Inr (mkList ''H'' ''B'' 2))
   \<and> spec_siblingCount_lists (lists dbFull) ''B'' = 2"
proof -
  have h1: "findById board_id ''B'' (boards dbFull) = Some boardB"
    by (simp add: findById_def dbFull_def boardB_def)
  have h2: "isMember boardB ''u1''" by (simp add: isMember_def boardB_def)
  note r = insert_position_is_sibling_count [OF h1 h2, of "''g1''" "''G''" "''H''"]
  have f1: "\<not> list_ex (\<lambda>c. card_id c = ''g1'') (cards dbFull)"
    by (simp add: dbFull_def mkCard_def)
  have f2: "filter (\<lambda>c. listId c = ''G'' \<and> CardDoc.archived c) (cards dbFull) = []"
    by (simp add: dbFull_def mkCard_def)
  have f3: "\<not> list_ex (\<lambda>x. list_id x = ''H'') (lists dbFull)"
    by (simp add: dbFull_def mkList_def)
  have f4: "filter (\<lambda>x. ListDoc.boardId x = ''B'' \<and> ListDoc.archived x) (lists dbFull) = []"
    by (simp add: dbFull_def mkList_def)
  have n1: "spec_siblingCount_cards (cards dbFull) ''G'' = 1"
    by (simp add: spec_siblingCount_cards_def spec_siblingCards_def dbFull_def mkCard_def)
  have n2: "length (filter (\<lambda>x. ListDoc.boardId x = ''B'') (lists dbFull)) = 2"
    by (simp add: dbFull_def mkList_def)
  from r f1 f2 f3 f4 show ?thesis
    using h1 h2 by (simp add: n1 n2 mkCard_def mkList_def)
qed

section \<open>Deleting a parent\<close>

text \<open>
  C9, as stated, fails on the code: the \<open>deleteList\<close> handler counts the non-archived cards
  of the list and refuses the deletion when there is one. List \<open>G\<close> holds the card \<open>g0\<close>;
  the request is answered with the list-has-cards response and nothing is deleted.
\<close>

theorem deleteList_rejects_list_with_cards:
  "deleteList dbFull ''u1'' ''G'' = (dbFull, Inl (ListHasCards 1))"
  by (simp add: deleteList_def findById_def isMember_def countDocuments_def Let_def
      dbFull_def boardB_def mkCard_def mkList_def)

text \<open>
  C9, amended. Deleting a board (by its owner) deletes the board, every list and every card
  that carries the board's id. The list model's \<open>deleteOne\<close> removes every card of the list
  in one \<open>deleteMany\<close>, the remaining cards untouched. The \<open>deleteList\<close> handler reaches
  that cascade only for a list without non-archived cards; a list that still has some is
  rejected and the store is unchanged.
\<close>

theorem parent_delete_cascades:
  "(findById board_id b (boards d) = Some bd \<and> isOwner bd userId \<longrightarrow>
      deleteBoard d userId b =
        (d\<lparr>boards := filter (\<lambda>x. board_id x \<noteq> b) (boards d),
           lists := filter (\<lambda>l. ListDoc.boardId l \<noteq> b) (lists d),
           cards := filter (\<lambda>c. CardDoc.boardId c \<noteq> b) (cards d)\<rparr>, Inr ()))
   \<and> cards (list_deleteOne d l) = filter (\<lambda>c. listId c \<noteq> list_id l) (cards d)
   \<and> (findById list_id lid (lists d) = Some l
        \<and> findById board_id (ListDoc.boardId l) (boards d) = Some board \<and> isMember board userId \<longrightarrow>
        deleteList d userId lid =
          (if spec_siblingCount_cards (cards d) lid > 0
           then (d, Inl (ListHasCards (spec_siblingCount_cards (cards d) lid)))
           else (list_deleteOne d l, Inr ())))"
proof (intro conjI impI)
  assume a: "findById board_id b (boards d) = Some bd \<and> isOwner bd userId"
  then have "board_id bd = b" using findById_Some by fastforce
  with a show "deleteBoard d userId b =
        (d\<lparr>boards := filter (\<lambda>x. board_id x \<noteq> b) (boards d),
           lists := filter (\<lambda>l. ListDoc.boardId l \<noteq> b) (lists d),
           cards := filter (\<lambda>c. CardDoc.boardId c \<noteq> b) (cards d)\<rparr>, Inr ())"
    by (simp add: deleteBoard_def board_deleteOne_def deleteMany_def)
next
  show "cards (list_deleteOne d l) = filter (\<lambda>c. listId c \<noteq> list_id l) (cards d)"
    by (simp add: list_deleteOne_def deleteMany_def)
next
  assume "findById list_id lid (lists d) = Some l
        \<and> findById board_id (ListDoc.boardId l) (boards d) = Some board \<and> isMember board userId"
  then show "deleteList d userId lid =
          (if spec_siblingCount_cards (cards d) lid > 0
           then (d, Inl (ListHasCards (spec_siblingCount_cards (cards d) lid)))
           else (list_deleteOne d l, Inr ()))"
    by (simp add: deleteList_def countDocuments_def Let_def spec_siblingCount_cards_def
        spec_siblingCards_def)
qed

theorem parent_delete_cascades_witness:
  "findById board_id ''B'' (boards dbFull) = Some boardB \<and> isOwner boardB ''u1''
   \<and> deleteBoard dbFull ''u1'' ''B'' = (\<lparr>boards = [], lists = [], cards = []\<rparr>, Inr ())
   \<and> findById list_id ''X'' (lists dbArch) = Some ((mkList ''X'' ''B'' 0)\<lparr>ListDoc.archived := True\<rparr>)
   \<and> findById board_id ''B'' (boards dbArch) = Some boardB \<and> isMember boardB ''u1''
   \<and> cards (list_deleteOne dbArch ((mkList ''X'' ''B'' 0)\<lparr>ListDoc.archived := True\<rparr>)) = []
   \<and> deleteList dbArch ''u1'' ''X'' = (\<lparr>boards = [boardB], lists = [], cards = []\<rparr>, Inr ())"
proof -
  let ?X = "(mkList ''X'' ''B'' 0)\<lparr>ListDoc.archived := True\<rparr>"
  note r = parent_delete_cascades [of "''B''" dbFull boardB "''u1''"]
  note q = parent_delete_cascades [of "''B''" dbArch boardB "''u1''" ?X "''X''" boardB]
  have h1: "findById board_id ''B'' (boards dbFull) = Some boardB \<and> isOwner boardB ''u1''"
    by (simp add: findById_def isOwner_def dbFull_def boardB_def)
  have h2: "findById list_id ''X'' (lists dbArch) = Some ?X
        \<and> findById board_id (ListDoc.boardId ?X) (boards dbArch) = Some boardB
        \<and> isMember boardB ''u1''"
    by (simp add: findById_def isMember_def dbArch_def boardB_def mkList_def)
  have k: "ListDoc.boardId ?X = ''B''" by (simp add: mkList_def)
  from r h1 have "deleteBoard dbFull ''u1'' ''B'' =
      (dbFull\<lparr>boards := filter (\<lambda>x. board_id x \<noteq> ''B'') (boards dbFull),
           lists := filter (\<lambda>l. ListDoc.boardId l \<noteq> ''B'') (lists dbFull),
           cards := filter (\<lambda>c. CardDoc.boardId c \<noteq> ''B'') (cards dbFull)\<rparr>, Inr ())"
    by blast
  then have r1: "deleteBoard dbFull ''u1'' ''B'' = (\<lparr>boards = [], lists = [], cards = []\<rparr>, Inr ())"
    by (simp add: dbFull_def boardB_def mkCard_def mkList_def)
  from q have "cards (list_deleteOne dbArch ?X) = filter (\<lambda>c. listId c \<noteq> list_id ?X) (cards dbArch)"
    by blast
  then have r2: "cards (list_deleteOne dbArch ?X) = []"
    by (simp add: dbArch_def mkCard_def mkList_def)
  from q h2 have "deleteList dbArch ''u1'' ''X'' =
          (if spec_siblingCount_cards (cards dbArch) ''X'' > 0
           then (dbArch, Inl (ListHasCards (spec_siblingCount_cards (cards dbArch) ''X'')))
           else (list_deleteOne dbArch ?X, Inr ()))"
    by blast
  then have r3: "deleteList dbArch ''u1'' ''X'' = (\<lparr>boards = [boardB], lists = [], cards = []\<rparr>, Inr ())"
    by (simp add: spec_siblingCount_cards_def spec_siblingCards_def list_deleteOne_def
        deleteMany_def updateMany_def dbArch_def mkCard_def mkList_def)
  show ?thesis using h1 h2 r1 r2 r3 by (simp add: k)
qed

section \<open>Archived siblings\<close>

text \<open>
  C6, as stated, fails on the code: the range shifts of the list model carry no filter on
  \<open>archived\<close>. Reordering \<open>l0\<close> from 0 to 2 moves the archived list \<open>x1\<close> from position 1
  to 0, and deleting \<open>l0\<close> does the same.
\<close>

theorem list_shifts_move_archived_lists:
  "moveToPosition listsArch (mkList ''l0'' ''B'' 0) 2 =
     ([mkList ''l0'' ''B'' 2, (mkList ''x1'' ''B'' 0)\<lparr>ListDoc.archived := True\<rparr>,
       mkList ''l2'' ''B'' 1],
      Inr (mkList ''l0'' ''B'' 2))
   \<and> lists (list_deleteOne \<lparr>boards = [boardB], lists = listsArch, cards = []\<rparr>
               (mkList ''l0'' ''B'' 0)) =
       [(mkList ''x1'' ''B'' 0)\<lparr>ListDoc.archived := True\<rparr>, mkList ''l2'' ''B'' 1]"
  by (simp add: moveToPosition_def list_save_def list_deleteOne_def updateMany_def deleteMany_def
      list_inc_def Let_def listsArch_def mkList_def)

text \<open>
  C6, amended. No insert and no card delete changes an archived sibling: \<open>createCard\<close> and
  \<open>createList\<close> shift nothing and add a non-archived document, and the range shift that
  follows a card delete excludes archived cards, so the archived documents of the collection
  are exactly those of before (less the deleted card itself, were it archived).
\<close>

theorem archived_items_frozen_by_insert_and_card_delete:
  "(createCard d userId newId l b = (d', r) \<longrightarrow>
      filter CardDoc.archived (cards d') = filter CardDoc.archived (cards d) \<and> lists d' = lists d)
   \<and> (createList d userId newListId b = (d'', r') \<longrightarrow>
      filter ListDoc.archived (lists d'') = filter ListDoc.archived (lists d) \<and> cards d'' = cards d)
   \<and> filter CardDoc.archived (card_deleteOne coll doc)
       = filter (\<lambda>c. CardDoc.archived c \<and> card_id c \<noteq> card_id doc) coll"
proof (intro conjI impI)
  assume "createCard d userId newId l b = (d', r)"
  then show "filter CardDoc.archived (cards d') = filter CardDoc.archived (cards d)"
    and "lists d' = lists d"
    by (auto simp: createCard_def card_insert_def Let_def split: option.splits if_splits)
next
  assume "createList d userId newListId b = (d'', r')"
  then show "filter ListDoc.archived (lists d'') = filter ListDoc.archived (lists d)"
    and "cards d'' = cards d"
    by (auto simp: createList_def list_insert_def Let_def split: option.splits if_splits)
next
  have "filter CardDoc.archived (card_deleteOne coll doc)
        = filter CardDoc.archived (deleteMany (\<lambda>c. card_id c = card_id doc) coll)"
    unfolding card_deleteOne_def
    by (rule filter_archived_updateMany_nonarchived) (simp_all add: card_inc_def)
  also have "\<dots> = filter (\<lambda>c. CardDoc.archived c \<and> card_id c \<noteq> card_id doc) coll"
    by (simp add: deleteMany_def conj_commute)
  finally show "filter CardDoc.archived (card_deleteOne coll doc)
       = filter (\<lambda>c. CardDoc.archived c \<and> card_id c \<noteq> card_id doc) coll" .
qed

theorem archived_items_frozen_by_insert_and_card_delete_witness:
  "createCard dbArch ''u1'' ''x1'' ''X'' ''B'' =
       (dbArch\<lparr>cards := cards dbArch @ [mkCard ''x1'' ''X'' 1]\<rparr>, Inr (mkCard ''x1'' ''X'' 1))
   \<and> filter CardDoc.archived (cards (dbArch\<lparr>cards := cards dbArch @ [mkCard ''x1'' ''X'' 1]\<rparr>))
       = [(mkCard ''x0'' ''X'' 0)\<lparr>CardDoc.archived := True\<rparr>]
   \<and> createList dbArch ''u1'' ''Y'' ''B'' =
       (dbArch\<lparr>lists := lists dbArch @ [mkList ''Y'' ''B'' 1]\<rparr>, Inr (mkList ''Y'' ''B'' 1))
   \<and> filter ListDoc.archived (lists (dbArch\<lparr>lists := lists dbArch @ [mkList ''Y'' ''B'' 1]\<rparr>))
       = [(mkList ''X'' ''B'' 0)\<lparr>ListDoc.archived := True\<rparr>]
   \<and> card_deleteOne cardsArch (mkCard ''c0'' ''L'' 0)
       = [(mkCard ''x1'' ''L'' 1)\<lparr>CardDoc.archived := True\<rparr>, mkCard ''c2'' ''L'' 1]
   \<and> filter CardDoc.archived (card_deleteOne cardsArch (mkCard ''c0'' ''L'' 0))
       = [(mkCard ''x1'' ''L'' 1)\<lparr>CardDoc.archived := True\<rparr>]"
proof -
  have e1: "createCard dbArch ''u1'' ''x1'' ''X'' ''B'' =
       (dbArch\<lparr>cards := cards dbArch @ [mkCard ''x1'' ''X'' 1]\<rparr>, Inr (mkCard ''x1'' ''X'' 1))"
    by (simp add: createCard_def findById_def isMember_def countDocuments_def card_insert_def
        Let_def dbArch_def boardB_def mkCard_def mkList_def)
  have e2: "createList dbArch ''u1'' ''Y'' ''B'' =
       (dbArch\<lparr>lists := lists dbArch @ [mkList ''Y'' ''B'' 1]\<rparr>, Inr (mkList ''Y'' ''B'' 1))"
    by (simp add: createList_def findById_def isMember_def countDocuments_def list_insert_def
        Let_def dbArch_def boardB_def mkCard_def mkList_def)
  note r = archived_items_frozen_by_insert_and_card_delete
      [where d = dbArch and userId = "''u1''" and newId = "''x1''" and l = "''X''" and b = "''B''"
        and newListId = "''Y''" and coll = cardsArch and doc = "mkCard ''c0'' ''L'' 0"]
  from r e1 have a1: "filter CardDoc.archived (cards (dbArch\<lparr>cards := cards dbArch @ [mkCard ''x1'' ''X'' 1]\<rparr>))
      = filter CardDoc.archived (cards dbArch)" by blast
  from r e2 have a2: "filter ListDoc.archived (lists (dbArch\<lparr>lists := lists dbArch @ [mkList ''Y'' ''B'' 1]\<rparr>))
      = filter ListDoc.archived (lists dbArch)" by blast
  from r have a3: "filter CardDoc.archived (card_deleteOne cardsArch (mkCard ''c0'' ''L'' 0))
       = filter (\<lambda>c. CardDoc.archived c \<and> card_id c \<noteq> card_id (mkCard ''c0'' ''L'' 0)) cardsArch"
    by blast
  have v1: "filter CardDoc.archived (cards dbArch) = [(mkCard ''x0'' ''X'' 0)\<lparr>CardDoc.archived := True\<rparr>]"
    by (simp add: dbArch_def mkCard_def)
  have v2: "filter ListDoc.archived (lists dbArch) = [(mkList ''X'' ''B'' 0)\<lparr>ListDoc.archived := True\<rparr>]"
    by (simp add: dbArch_def mkList_def)
  have v3: "filter (\<lambda>c. CardDoc.archived c \<and> card_id c \<noteq> card_id (mkCard ''c0'' ''L'' 0)) cardsArch
      = [(mkCard ''x1'' ''L'' 1)\<lparr>CardDoc.archived := True\<rparr>]"
    by (simp add: cardsArch_def mkCard_def)
  have v4: "card_deleteOne cardsArch (mkCard ''c0'' ''L'' 0)
       = [(mkCard ''x1'' ''L'' 1)\<lparr>CardDoc.archived := True\<rparr>, mkCard ''c2'' ''L'' 1]"
    by (simp add: card_deleteOne_def updateMany_def deleteMany_def card_inc_def cardsArch_def mkCard_def)
  show ?thesis
    using e1 e2 a1 a2 a3 v4 unfolding v1 v2 v3 by (intro conjI)
qed

section \<open>Moving across parents\<close>

text \<open>
  C3, as stated, fails on the code in one point of design: with a null target the card is
  appended at \<open>Card.countDocuments({ listId: newListId })\<close>, which counts archived cards too.
  List \<open>X\<close> holds one archived card, so its sibling count is 0, and the moved card arrives at
  position 1. A negative target, moreover, is not refused before the shifts: the card stays
  where it was and the call fails at the save. The save fails in the same way, after the
  shifts in both lists, for a card whose due date has passed (due at 1000, moved at 2000 to
  position 0 of list \<open>B\<close>): the \<open>dueDate\<close> validator of \<open>this.save()\<close> rejects it.
\<close>

theorem move_across_append_counts_archived_counterexample:
  "spec_siblingCount_cards cardsAX ''X'' = 0
   \<and> moveToList 2000 cardsAX (mkCard ''a0'' ''A'' 0) ''X'' None =
       ([mkCard ''a0'' ''X'' 1, mkCard ''a1'' ''A'' 0,
         (mkCard ''x0'' ''X'' 0)\<lparr>CardDoc.archived := True\<rparr>],
        Inr (mkCard ''a0'' ''X'' 1))
   \<and> moveToList 2000 cardsAB (mkCard ''a0'' ''A'' 0) ''B'' (Some (- 1)) =
       ([mkCard ''a0'' ''A'' 0, mkCard ''a1'' ''A'' 0, mkCard ''b0'' ''B'' 1],
        Inl ValidationError)
   \<and> moveToList 2000 cardsDueAB ((mkCard ''a0'' ''A'' 0)\<lparr>dueDate := Some 1000\<rparr>) ''B'' (Some 0) =
       ([(mkCard ''a0'' ''A'' 0)\<lparr>dueDate := Some 1000\<rparr>, mkCard ''a1'' ''A'' 0,
         mkCard ''b0'' ''B'' 1],
        Inl ValidationError)"
  by (simp add: spec_siblingCount_cards_def spec_siblingCards_def moveToList_def Let_def
      card_save_def dueDate_validator_def updateMany_def countDocuments_def card_inc_def
      cardsAX_def cardsAB_def cardsDueAB_def mkCard_def)

text \<open>
  C3, amended. For a move of a card whose due date, if it has one, has not passed to another
  list with a non-negative target, a null target meaning the destination's sibling count,
  read before the destination is changed, when the destination holds no archived card: the
  cards of the source list after the moved card are each decremented by one, the cards of the
  destination at positions at or after the target are each incremented by one, the moved card ends at the target in the new list, every other
  card is unchanged; the source list is densely numbered again when it was before and the
  moved card is not archived; and the sibling counts of the two lists add up to the same sum
  as before.
\<close>

theorem move_across_parents:
  assumes "distinct (map card_id coll)" and "this \<in> set coll" and "newListId \<noteq> listId this"
    and "p = (case newPosition of
                None \<Rightarrow> int (spec_siblingCount_cards coll newListId)
              | Some t \<Rightarrow> t)"
    and "0 \<le> p"
    and "newPosition = None \<Longrightarrow>
           filter (\<lambda>c. listId c = newListId \<and> CardDoc.archived c) coll = []"
    and "dueDate_validator now (dueDate this)"
  shows "moveToList now coll this newListId newPosition =
           (map (\<lambda>c. if card_id c = card_id this
                        then c\<lparr>listId := newListId, CardDoc.position := p\<rparr>
                      else if listId c = listId this \<and> CardDoc.position this < CardDoc.position c
                        then c\<lparr>CardDoc.position := CardDoc.position c - 1\<rparr>
                      else if listId c = newListId \<and> p \<le> CardDoc.position c
                        then c\<lparr>CardDoc.position := CardDoc.position c + 1\<rparr>
                      else c) coll,
            Inr (this\<lparr>listId := newListId, CardDoc.position := p\<rparr>))
       \<and> (CardDoc.archived this = False \<and> spec_I1_cards coll (listId this)
            \<longrightarrow> spec_I1_cards (fst (moveToList now coll this newListId newPosition)) (listId this))
       \<and> spec_siblingCount_cards (fst (moveToList now coll this newListId newPosition)) (listId this)
           + spec_siblingCount_cards (fst (moveToList now coll this newListId newPosition)) newListId
         = spec_siblingCount_cards coll (listId this) + spec_siblingCount_cards coll newListId"
proof -
  have p: "p = (case newPosition of
                None \<Rightarrow> int (countDocuments (\<lambda>c. listId c = newListId) coll)
              | Some t \<Rightarrow> t)"
  proof (cases newPosition)
    case None
    then have "\<And>c. c \<in> set coll \<Longrightarrow> listId c = newListId \<Longrightarrow> CardDoc.archived c = False"
      using assms(6) by (auto simp: filter_empty_conv)
    then have "filter (\<lambda>c. listId c = newListId) coll
               = filter (\<lambda>c. listId c = newListId \<and> CardDoc.archived c = False) coll"
      by (intro filter_cong) auto
    then show ?thesis
      using None assms(4)
      by (simp add: countDocuments_def spec_siblingCount_cards_def spec_siblingCards_def)
  next
    case (Some t)
    then show ?thesis using assms(4) by simp
  qed
  let ?g = "\<lambda>c. if card_id c = card_id this
                        then c\<lparr>listId := newListId, CardDoc.position := p\<rparr>
                      else if listId c = listId this \<and> CardDoc.position this < CardDoc.position c
                        then c\<lparr>CardDoc.position := CardDoc.position c - 1\<rparr>
                      else if listId c = newListId \<and> p \<le> CardDoc.position c
                        then c\<lparr>CardDoc.position := CardDoc.position c + 1\<rparr>
                      else c"
  have shape: "moveToList now coll this newListId newPosition =
           (map ?g coll, Inr (this\<lparr>listId := newListId, CardDoc.position := p\<rparr>))"
    using assms(1,2,3) p assms(5,7) by (rule moveToList_across)
  have same: "\<And>c. c \<in> set coll \<Longrightarrow> card_id c = card_id this \<Longrightarrow> c = this"
    using assms(1,2) same_id_same_card by blast
  have "(if listId (?g c) = listId this \<and> CardDoc.archived (?g c) = False then 1 else 0)
        + (if listId (?g c) = newListId \<and> CardDoc.archived (?g c) = False then 1 else 0)
      = (if listId c = listId this \<and> CardDoc.archived c = False then (1::nat) else 0)
        + (if listId c = newListId \<and> CardDoc.archived c = False then 1 else 0)"
    if "c \<in> set coll" for c
  proof (cases "card_id c = card_id this")
    case True
    with same that have "c = this" by blast
    then show ?thesis using assms(3) by simp
  next
    case False
    then show ?thesis by simp
  qed
  then have "length (filter (\<lambda>c. listId c = listId this \<and> CardDoc.archived c = False) (map ?g coll))
        + length (filter (\<lambda>c. listId c = newListId \<and> CardDoc.archived c = False) (map ?g coll))
      = length (filter (\<lambda>c. listId c = listId this \<and> CardDoc.archived c = False) coll)
        + length (filter (\<lambda>c. listId c = newListId \<and> CardDoc.archived c = False) coll)"
    by (rule count_pair_preserved)
  then have conserve:
    "spec_siblingCount_cards (fst (moveToList now coll this newListId newPosition)) (listId this)
           + spec_siblingCount_cards (fst (moveToList now coll this newListId newPosition)) newListId
         = spec_siblingCount_cards coll (listId this) + spec_siblingCount_cards coll newListId"
    by (simp add: shape spec_siblingCount_cards_def spec_siblingCards_def)
  have i1: "spec_I1_cards (fst (moveToList now coll this newListId newPosition)) (listId this)"
    if a: "CardDoc.archived this = False \<and> spec_I1_cards coll (listId this)"
    using assms(1,2) _ assms(3) p assms(5)
  proof (rule I1_cards_moveToList_across)
    show "CardDoc.archived this = False" using a by simp
    show "spec_I1_cards coll (listId this)" using a by simp
    show "listId this = newListId \<Longrightarrow> p \<le> int (spec_siblingCount_cards coll (listId this))"
      using assms(3) by simp
    show "dueDate_validator now (dueDate this)" by (rule assms(7))
  qed
  show ?thesis using shape conserve i1 by blast
qed

theorem move_across_parents_witness:
  "distinct (map card_id cardsAB) \<and> mkCard ''a0'' ''A'' 0 \<in> set cardsAB
   \<and> ''B'' \<noteq> listId (mkCard ''a0'' ''A'' 0)
   \<and> filter (\<lambda>c. listId c = ''B'' \<and> CardDoc.archived c) cardsAB = []
   \<and> dueDate_validator 2000 (dueDate (mkCard ''a0'' ''A'' 0))
   \<and> CardDoc.archived (mkCard ''a0'' ''A'' 0) = False \<and> spec_I1_cards cardsAB ''A''
   \<and> int (spec_siblingCount_cards cardsAB ''B'') = 1
   \<and> moveToList 2000 cardsAB (mkCard ''a0'' ''A'' 0) ''B'' None =
        ([mkCard ''a0'' ''B'' 1, mkCard ''a1'' ''A'' 0, mkCard ''b0'' ''B'' 0],
         Inr (mkCard ''a0'' ''B'' 1))
   \<and> spec_I1_cards (fst (moveToList 2000 cardsAB (mkCard ''a0'' ''A'' 0) ''B'' None)) ''A''
   \<and> spec_siblingCount_cards (fst (moveToList 2000 cardsAB (mkCard ''a0'' ''A'' 0) ''B'' None)) ''A''
       + spec_siblingCount_cards (fst (moveToList 2000 cardsAB (mkCard ''a0'' ''A'' 0) ''B'' None)) ''B''
       = 3
   \<and> moveToList 2000 cardsAB (mkCard ''a0'' ''A'' 0) ''B'' (Some 0) =
        ([mkCard ''a0'' ''B'' 0, mkCard ''a1'' ''A'' 0, mkCard ''b0'' ''B'' 1],
         Inr (mkCard ''a0'' ''B'' 0))
   \<and> cards_in_order (fst (moveToList 2000 cardsAB (mkCard ''a0'' ''A'' 0) ''B'' (Some 0))) ''A'' = [''a1'']
   \<and> cards_in_order (fst (moveToList 2000 cardsAB (mkCard ''a0'' ''A'' 0) ''B'' (Some 0))) ''B''
       = [''a0'', ''b0'']"
proof -
  let ?a0 = "mkCard ''a0'' ''A'' 0"
  have k: "listId ?a0 = ''A''" "card_id ?a0 = ''a0''" "CardDoc.position ?a0 = 0"
    by (simp_all add: mkCard_def)
  have h1: "distinct (map card_id cardsAB)" by (simp add: cardsAB_def mkCard_def)
  have h2: "?a0 \<in> set cardsAB" by (simp add: cardsAB_def)
  have h3: "''B'' \<noteq> listId ?a0" by (simp add: mkCard_def)
  have c1: "int (spec_siblingCount_cards cardsAB ''B'') = 1"
    by (simp add: spec_siblingCount_cards_def spec_siblingCards_def cardsAB_def mkCard_def)
  have h4: "(1::int) = (case None of
                None \<Rightarrow> int (spec_siblingCount_cards cardsAB ''B'')
              | Some t \<Rightarrow> t)"
    using c1 by simp
  have h4': "(0::int) = (case Some 0 of
                None \<Rightarrow> int (spec_siblingCount_cards cardsAB ''B'')
              | Some t \<Rightarrow> t)"
    by simp
  have h5: "(0::int) \<le> 1" by simp
  have h6: "filter (\<lambda>c. listId c = ''B'' \<and> CardDoc.archived c) cardsAB = []"
    by (simp add: cardsAB_def mkCard_def)
  have h7: "CardDoc.archived ?a0 = False" by (simp add: mkCard_def)
  have h8: "spec_I1_cards cardsAB (listId ?a0)"
    by (auto simp: spec_I1_cards_def spec_siblingCards_def dense_def cardsAB_def mkCard_def)
  have n: "spec_siblingCount_cards cardsAB (listId ?a0) + spec_siblingCount_cards cardsAB ''B'' = 3"
    by (simp add: spec_siblingCount_cards_def spec_siblingCards_def cardsAB_def mkCard_def)
  have h9: "dueDate_validator 2000 (dueDate ?a0)"
    by (simp add: dueDate_validator_def mkCard_def)
  note r = move_across_parents [OF h1 h2 h3 h4 h5 h6 h9]
  note q = move_across_parents [OF h1 h2 h3 h4' order_refl _ h9]
  from r h7 h8 have c2: "spec_I1_cards (fst (moveToList 2000 cardsAB ?a0 ''B'' None)) (listId ?a0)"
    by blast
  from r have "spec_siblingCount_cards (fst (moveToList 2000 cardsAB ?a0 ''B'' None)) (listId ?a0)
       + spec_siblingCount_cards (fst (moveToList 2000 cardsAB ?a0 ''B'' None)) ''B''
       = spec_siblingCount_cards cardsAB (listId ?a0) + spec_siblingCount_cards cardsAB ''B''"
    by blast
  from this n have c3: "spec_siblingCount_cards (fst (moveToList 2000 cardsAB ?a0 ''B'' None)) (listId ?a0)
       + spec_siblingCount_cards (fst (moveToList 2000 cardsAB ?a0 ''B'' None)) ''B'' = 3"
    by (rule trans)
  from r have c4: "moveToList 2000 cardsAB ?a0 ''B'' None =
        ([mkCard ''a0'' ''B'' 1, mkCard ''a1'' ''A'' 0, mkCard ''b0'' ''B'' 0],
         Inr (mkCard ''a0'' ''B'' 1))"
    by (simp add: cardsAB_def mkCard_def)
  from q have c5: "moveToList 2000 cardsAB ?a0 ''B'' (Some 0) =
        ([mkCard ''a0'' ''B'' 0, mkCard ''a1'' ''A'' 0, mkCard ''b0'' ''B'' 1],
         Inr (mkCard ''a0'' ''B'' 0))"
    by (simp add: cardsAB_def mkCard_def)
  have o: "cards_in_order [mkCard ''a0'' ''B'' 0, mkCard ''a1'' ''A'' 0, mkCard ''b0'' ''B'' 1] ''A'' = [''a1'']"
    "cards_in_order [mkCard ''a0'' ''B'' 0, mkCard ''a1'' ''A'' 0, mkCard ''b0'' ''B'' 1] ''B'' = [''a0'', ''b0'']"
    by (simp_all add: cards_in_order_def mkCard_def)
  show ?thesis
    using h1 h2 h3 h6 h7 h8 h9 c1 c2 c3 c4 c5 o unfolding k by simp
qed

section \<open>The invariant along a sequence of operations\<close>





end
